theory Spec2Isabelle
  imports Main "HOL-Library.Word" "HOL-Library.AList" "HOL-Library.Sublist"
begin

section \<open>JavaScript strings\<close>

text \<open>
  A JavaScript string is a sequence of 16-bit UTF-16 code units: \<open>length\<close> counts code
  units and \<open>includes\<close> searches for a contiguous run of them. The function \<open>ascii\<close>
  writes an ASCII literal of the source as code units; literals with Hebrew letters are
  given by their code units.
\<close>

type_synonym jsstring = "16 word list"

definition ascii :: "string \<Rightarrow> jsstring" where
  "ascii s = map (\<lambda>c. of_nat (of_char c)) s"

text \<open>\<open>String.prototype.includes\<close>: the argument occurs as a contiguous run.\<close>

fun starts_with :: "jsstring \<Rightarrow> jsstring \<Rightarrow> bool" where
  "starts_with s [] = True"
| "starts_with [] (k # ks) = False"
| "starts_with (c # cs) (k # ks) = (c = k \<and> starts_with cs ks)"

fun js_includes :: "jsstring \<Rightarrow> jsstring \<Rightarrow> bool" where
  "js_includes [] k = starts_with [] k"
| "js_includes (c # cs) k = (starts_with (c # cs) k \<or> js_includes cs k)"

text \<open>Number-to-string conversion of a non-negative integer (template literal \<open>${index}\<close>).\<close>

definition digit :: "nat \<Rightarrow> 16 word" where
  "digit d = of_nat (48 + d)"

fun decimal :: "nat \<Rightarrow> jsstring" where
  "decimal n = (if n < 10 then [digit n] else decimal (n div 10) @ [digit (n mod 10)])"

declare decimal.simps [simp del]

section \<open>JSON values and script records\<close>

text \<open>
  The objects pushed on \<open>scriptArray\<close> are plain object literals; they are kept as JSON
  objects whose properties are in insertion order, which is the order
  \<open>JSON.stringify\<close> writes them in. Property names of the source are ASCII
  identifiers.
\<close>

datatype json =
    JString jsstring
  | JNumber int
  | JBool bool
  | JArray "json list"
  | JObject "(string \<times> json) list"

fun get_prop :: "json \<Rightarrow> string \<Rightarrow> json option" where
  "get_prop (JObject kvs) k = map_of kvs k"
| "get_prop _ k = None"

text \<open>Assignment \<open>obj.k = v\<close> to a property the object literal does not have yet.\<close>

fun add_prop :: "json \<Rightarrow> string \<Rightarrow> json \<Rightarrow> json" where
  "add_prop (JObject kvs) k v = JObject (AList.update k v kvs)"
| "add_prop j k v = j"

section \<open>Diagram nodes and edges\<close>

text \<open>
  \<open>extractNodes\<close> and \<open>extractConnections\<close> build these objects from the attributes
  of a cell. An attribute that is absent reads as \<open>undefined\<close>, which is \<open>None\<close> here;
  \<open>value\<close> and \<open>style\<close> are defaulted to the empty string by the extractor.
\<close>

type_synonym jsid = "jsstring option"

record node =
  n_id :: jsid
  n_value :: jsstring
  n_style :: jsstring
  n_parent :: jsid
  n_geometry :: "(jsstring \<times> jsstring) list"

record connection =
  c_id :: jsid
  c_source :: jsid
  c_target :: jsid
  c_value :: jsstring

text \<open>The hierarchy node \<open>{...node, children: []}\<close>.\<close>

record hnode = node +
  children :: "jsid list"

definition with_children :: "node \<Rightarrow> jsid list \<Rightarrow> hnode" where
  "with_children n cs =
     \<lparr>n_id = n_id n, n_value = n_value n, n_style = n_style n, n_parent = n_parent n,
      n_geometry = n_geometry n, children = cs\<rparr>"

section \<open>Node classification\<close>

datatype node_type =
  Message | Transfer | Unknown | Error | End | Start | Input | Decision

definition kw_transfer_he :: jsstring where
  "kw_transfer_he = [0x5DE, 0x5E2, 0x5D1, 0x5E8, 0x20, 0x5DC, 0x5E0, 0x5E6, 0x5D9, 0x5D2]"

definition kw_unknown_he :: jsstring where
  "kw_unknown_he = [0x5DC, 0x5D0, 0x20, 0x5D9, 0x5D3, 0x5D5, 0x5E2]"

definition kw_error_he :: jsstring where
  "kw_error_he = [0x5E9, 0x5D2, 0x5D9, 0x5D0, 0x5D4]"

definition kw_end_he :: jsstring where
  "kw_end_he = [0x5E1, 0x5D9, 0x5D5, 0x5DD]"

definition kw_close_he :: jsstring where
  "kw_close_he = [0x5E1, 0x5D2, 0x5D9, 0x5E8, 0x5D4]"

definition kw_start_he :: jsstring where
  "kw_start_he = [0x5D4, 0x5EA, 0x5D7, 0x5DC, 0x5D4]"

definition kw_input_he :: jsstring where
  "kw_input_he = [0x5E7, 0x5DC, 0x5D8]"

text \<open>
  \<open>detectNodeType\<close>. The built-in \<open>String.prototype.toLowerCase\<close> (the Unicode case
  mapping) is the parameter \<open>toLowerCase\<close>.
\<close>

definition detectNodeType :: "(jsstring \<Rightarrow> jsstring) \<Rightarrow> 'a node_scheme \<Rightarrow> node_type" where
  "detectNodeType toLowerCase node =
     (let val = toLowerCase (n_value node);
          style = toLowerCase (n_style node)
      in if js_includes val kw_transfer_he \<or> js_includes val (ascii ''transfer'')
            \<or> js_includes val (ascii ''agent'') then Transfer
         else if js_includes val kw_unknown_he \<or> js_includes val (ascii ''unknown'') then Unknown
         else if js_includes val kw_error_he \<or> js_includes val (ascii ''error'') then Error
         else if js_includes val kw_end_he \<or> js_includes val kw_close_he
            \<or> js_includes val (ascii ''end'') \<or> js_includes val (ascii ''close'') then End
         else if js_includes val kw_start_he \<or> js_includes val (ascii ''start'') then Start
         else if js_includes val kw_input_he \<or> js_includes val (ascii ''input'') then Input
         else if js_includes style (ascii ''ellipse'') \<or> js_includes style (ascii ''circle'') then Start
         else if js_includes style (ascii ''rhombus'') \<or> js_includes style (ascii ''diamond'')
           then Decision
         else Message)"

section \<open>Hierarchy construction\<close>

text \<open>
  \<open>nodeMap\<close> is a JavaScript \<open>Map\<close> from node id to hierarchy node: an association list,
  where \<open>set\<close> on a key that is present replaces the value in place. The loop over the
  connections mutates the objects held by the map; the model writes the changed object
  back under its key, and reads the target again after the source was changed, as both
  may be the same object.
\<close>

type_synonym nodeMap = "(jsid \<times> hnode) list"

definition initNodeMap :: "node list \<Rightarrow> nodeMap" where
  "initNodeMap nodes =
     foldl (\<lambda>nm node. AList.update (n_id node) (with_children node []) nm) [] nodes"

definition connect :: "nodeMap \<Rightarrow> connection \<Rightarrow> nodeMap" where
  "connect nm conn =
     (case (map_of nm (c_source conn), map_of nm (c_target conn)) of
        (Some sourceNode, Some targetNode) \<Rightarrow>
          let nm1 = AList.update (c_source conn)
                      (sourceNode\<lparr>children := children sourceNode @ [n_id targetNode]\<rparr>) nm
          in (case map_of nm1 (c_target conn) of
                Some targetNode' \<Rightarrow>
                  AList.update (c_target conn) (targetNode'\<lparr>n_parent := n_id sourceNode\<rparr>) nm1
              | None \<Rightarrow> nm1)
      | _ \<Rightarrow> nm)"

text \<open>
  The test \<open>!hierarchyNode.parent || hierarchyNode.parent === '1' ||
  hierarchyNode.parent === '0'\<close>: \<open>undefined\<close> and the empty string are falsy.
\<close>

definition is_root :: "hnode \<Rightarrow> bool" where
  "is_root h = (n_parent h = None \<or> n_parent h = Some [] \<or> n_parent h = Some (ascii ''1'')
                 \<or> n_parent h = Some (ascii ''0''))"

text \<open>
  The body of the second \<open>nodes.forEach\<close>: what one node adds to \<open>hierarchy\<close>. Every
  node id is a key of the map by then, so the lookup does not fail.
\<close>

definition root_entry :: "nodeMap \<Rightarrow> node \<Rightarrow> hnode list" where
  "root_entry nm node =
     (case map_of nm (n_id node) of
        Some hierarchyNode \<Rightarrow> if is_root hierarchyNode then [hierarchyNode] else []
      | None \<Rightarrow> [])"

definition find_roots :: "nodeMap \<Rightarrow> node list \<Rightarrow> hnode list" where
  "find_roots nm nodes = concat (map (root_entry nm) nodes)"

definition buildHierarchy :: "node list \<Rightarrow> connection list \<Rightarrow> nodeMap \<times> hnode list" where
  "buildHierarchy nodes connections =
     (let nm = foldl connect (initNodeMap nodes) connections
      in (nm, find_roots nm nodes))"

section \<open>Script records\<close>

definition nodeId :: "nat \<Rightarrow> jsstring" where
  "nodeId index = ascii ''n_'' @ decimal index"

definition default_input_name :: jsstring where
  "default_input_name = [0x5D4, 0x5D6, 0x5DF, 0x20, 0x5E7, 0x5DC, 0x5D8]"

text \<open>\<open>a || b\<close> on strings: the empty string is falsy.\<close>

definition or_else :: "jsstring \<Rightarrow> jsstring \<Rightarrow> jsstring" where
  "or_else a b = (if a = [] then b else a)"

definition input_field :: "'a node_scheme \<Rightarrow> nat \<Rightarrow> json" where
  "input_field node index = JObject
     [(''uniqueName'', JString (ascii ''input_'' @ decimal index)),
      (''name'', JString (or_else (n_value node) default_input_name)),
      (''labelDescription'', JString []),
      (''type'', JString (ascii ''string'')),
      (''key'', JBool False),
      (''isVisible'', JBool False),
      (''isMandatory'', JBool True),
      (''askOnlyOnce'', JBool False),
      (''isSystemField'', JBool False),
      (''fieldType'', JString (ascii ''1'')),
      (''validation'', JString [])]"

definition base_record :: "'a node_scheme \<Rightarrow> nat \<Rightarrow> jsstring \<Rightarrow> json" where
  "base_record node index parentId = JObject
     [(''id'', JString (nodeId index)),
      (''text'', JString (or_else (n_value node) (ascii ''Node '' @ decimal index))),
      (''parent'', JString parentId),
      (''rI'', JString (ascii ''2'')),
      (''addChannelStateMessage'', JBool False),
      (''attachments'', JObject [])]"

definition convertToCommboxNode ::
  "(jsstring \<Rightarrow> jsstring) \<Rightarrow> 'a node_scheme \<Rightarrow> nat \<Rightarrow> jsstring \<Rightarrow> json" where
  "convertToCommboxNode toLowerCase node index parentId =
     (let commboxNode = base_record node index parentId
      in case detectNodeType toLowerCase node of
           Message \<Rightarrow>
             if n_value node \<noteq> [] \<and> length (n_value node) > 20
             then add_prop commboxNode ''bodyHtml'' (JString (n_value node))
             else commboxNode
         | Transfer \<Rightarrow> add_prop commboxNode ''step'' (JString (ascii ''agent_node''))
         | Unknown \<Rightarrow> add_prop commboxNode ''unknown'' (JString (ascii ''1''))
         | Error \<Rightarrow> add_prop commboxNode ''error'' (JBool True)
         | End \<Rightarrow> add_prop commboxNode ''end'' (JString (ascii ''2''))
         | Input \<Rightarrow> add_prop commboxNode ''d_e'' (JArray [input_field node index])
         | Start \<Rightarrow> commboxNode
         | Decision \<Rightarrow> commboxNode)"

section \<open>Depth-first emission\<close>

text \<open>
  The closure \<open>processNode\<close> reads and writes three variables of \<open>generateCommboxXML\<close>:
  the array \<open>scriptArray\<close>, the counter \<open>nodeIndex\<close> and the set \<open>processedNodes\<close>. They
  are the state that is passed through the traversal. A JavaScript \<open>Set\<close> keeps its
  members in insertion order, so it is a list without repetitions that \<open>add\<close> appends to.
  \<open>processChildren\<close> is the \<open>forEach\<close> over \<open>node.children\<close>.
\<close>

record gen_state =
  scriptArray :: "json list"
  nodeIndex :: nat
  processedNodes :: "jsid list"

definition emit :: "(jsstring \<Rightarrow> jsstring) \<Rightarrow> hnode \<Rightarrow> jsstring \<Rightarrow> gen_state \<Rightarrow> gen_state" where
  "emit toLowerCase node parentId st =
     \<lparr>scriptArray = scriptArray st @ [convertToCommboxNode toLowerCase node (nodeIndex st) parentId],
      nodeIndex = nodeIndex st + 1,
      processedNodes = processedNodes st @ [n_id node]\<rparr>"

function processNode ::
    "(jsstring \<Rightarrow> jsstring) \<Rightarrow> nodeMap \<Rightarrow> hnode \<Rightarrow> jsstring \<Rightarrow> gen_state \<Rightarrow> gen_state"
  and processChildren ::
    "(jsstring \<Rightarrow> jsstring) \<Rightarrow> nodeMap \<Rightarrow> jsid list \<Rightarrow> jsstring \<Rightarrow> gen_state \<Rightarrow> gen_state"
where
  "processNode toLowerCase nm node parentId st =
     (if n_id node \<in> set (processedNodes st) then st
      else processChildren toLowerCase nm (children node) (nodeId (nodeIndex st))
             (emit toLowerCase node parentId st))"
| "processChildren toLowerCase nm [] parentId st = st"
| "processChildren toLowerCase nm (childId # rest) parentId st =
     (case map_of nm childId of
        Some childNode \<Rightarrow>
          processChildren toLowerCase nm rest parentId
            (processNode toLowerCase nm childNode parentId st)
      | None \<Rightarrow> processChildren toLowerCase nm rest parentId st)"
  by pat_completeness auto

text \<open>Measure of the traversal: the node ids of the map that were not emitted yet.\<close>

definition node_ids :: "nodeMap \<Rightarrow> jsid set" where
  "node_ids nm = (\<lambda>kv. n_id (snd kv)) ` set nm"

definition todo :: "nodeMap \<Rightarrow> gen_state \<Rightarrow> jsid set" where
  "todo nm st = node_ids nm - set (processedNodes st)"

definition dfs_measure ::
  "(jsstring \<Rightarrow> jsstring) \<times> nodeMap \<times> hnode \<times> jsstring \<times> gen_state
   + (jsstring \<Rightarrow> jsstring) \<times> nodeMap \<times> jsid list \<times> jsstring \<times> gen_state \<Rightarrow> nat \<times> nat" where
  "dfs_measure x =
     (case x of
        Inl (l, nm, node, pid, st) \<Rightarrow>
          (card (insert (n_id node) (node_ids nm) - set (processedNodes st)), 0)
      | Inr (l, nm, cs, pid, st) \<Rightarrow> (card (todo nm st), Suc (length cs)))"

section \<open>The script array\<close>

definition configRecord :: json where
  "configRecord = JObject
     [(''seedId'', JNumber 44),
      (''endNodeId'', JString []),
      (''genericDelayJumpTime'', JString []),
      (''genericDelayJumpNode'', JString []),
      (''genericRedisplayTime'', JString []),
      (''genericRedisplayMessage'', JString []),
      (''dataContextExpirationTime'', JString []),
      (''engineVersion'', JNumber 0),
      (''allowUsingAI'', JBool False),
      (''importMismatches'', JArray []),
      (''assistantId'', JString [])]"

definition rootRecord :: json where
  "rootRecord = JObject
     [(''id'', JString (ascii ''node_0'')),
      (''text'', JString [0x5D4, 0x5EA, 0x5D7, 0x5DC, 0x5D4]),
      (''parent'', JString (ascii ''#'')),
      (''rI'', JString (ascii ''2'')),
      (''addChannelStateMessage'', JBool False),
      (''attachments'', JObject [])]"

definition groupRecord :: json where
  "groupRecord = JObject
     [(''id'', JString (ascii ''n_3'')),
      (''text'', JString [0x5EA, 0x5D4, 0x5DC, 0x5D9, 0x5DB, 0x5D9, 0x5DD, 0x20,
                          0x5E7, 0x5D1, 0x5D5, 0x5E2, 0x5D9, 0x5DD]),
      (''parent'', JString (ascii ''node_0'')),
      (''buttonDisplayMode'', JString (ascii ''1'')),
      (''rI'', JString (ascii ''2'')),
      (''addChannelStateMessage'', JBool False),
      (''attachments'', JObject [])]"

definition transferRecord :: json where
  "transferRecord = JObject
     [(''id'', JString (ascii ''n_10'')),
      (''text'', JString [0x5DE, 0x5E2, 0x5D1, 0x5E8, 0x20, 0x5DC, 0x5E0, 0x5E6, 0x5D9, 0x5D2]),
      (''parent'', JString (ascii ''n_3'')),
      (''rI'', JString (ascii ''2'')),
      (''addChannelStateMessage'', JBool False),
      (''attachments'', JObject [])]"

definition errorRecord :: json where
  "errorRecord = JObject
     [(''id'', JString (ascii ''n_11'')),
      (''text'', JString (ascii ''Error'')),
      (''parent'', JString (ascii ''n_3'')),
      (''rI'', JString (ascii ''2'')),
      (''addChannelStateMessage'', JBool False),
      (''error'', JBool True)]"

definition unknownRecord :: json where
  "unknownRecord = JObject
     [(''id'', JString (ascii ''n_12'')),
      (''text'', JString [0x5DC, 0x5D0, 0x20, 0x5D9, 0x5D3, 0x5D5, 0x5E2]),
      (''parent'', JString (ascii ''n_3'')),
      (''rI'', JString (ascii ''2'')),
      (''addChannelStateMessage'', JBool False),
      (''unknown'', JString (ascii ''1''))]"

definition initial_state :: gen_state where
  "initial_state =
     \<lparr>scriptArray = [configRecord, rootRecord], nodeIndex = 2, processedNodes = []\<rparr>"

text \<open>\<open>hierarchy.forEach(rootNode => processNode(rootNode))\<close>, with the default parent.\<close>

definition processRoots ::
  "(jsstring \<Rightarrow> jsstring) \<Rightarrow> nodeMap \<Rightarrow> hnode list \<Rightarrow> gen_state \<Rightarrow> gen_state" where
  "processRoots toLowerCase nm hierarchy st =
     foldl (\<lambda>st rootNode. processNode toLowerCase nm rootNode (ascii ''node_0'') st) st hierarchy"

definition traverse :: "(jsstring \<Rightarrow> jsstring) \<Rightarrow> node list \<Rightarrow> connection list \<Rightarrow> gen_state" where
  "traverse toLowerCase nodes connections =
     (case buildHierarchy nodes connections of
        (nm, hierarchy) \<Rightarrow> processRoots toLowerCase nm hierarchy initial_state)"

text \<open>The array that \<open>generateCommboxXML\<close> hands to \<open>JSON.stringify\<close>.\<close>

definition buildScriptArray ::
  "(jsstring \<Rightarrow> jsstring) \<Rightarrow> node list \<Rightarrow> connection list \<Rightarrow> json list" where
  "buildScriptArray toLowerCase nodes connections =
     scriptArray (traverse toLowerCase nodes connections)
       @ [groupRecord, transferRecord, errorRecord, unknownRecord]"

section \<open>The classification rules as the specification lists them\<close>

text \<open>
  The specification gives the classifier as an ordered list of rules, the first
  matching rule winning: six rules on the label, then two on the style, then the
  default. \<open>classify_spec\<close> follows that wording; \<open>detectNodeType\<close> above follows
  the code.
\<close>

definition label_rules :: "(jsstring list \<times> node_type) list" where
  "label_rules =
     [([kw_transfer_he, ascii ''transfer'', ascii ''agent''], Transfer),
      ([kw_unknown_he, ascii ''unknown''], Unknown),
      ([kw_error_he, ascii ''error''], Error),
      ([kw_end_he, kw_close_he, ascii ''end'', ascii ''close''], End),
      ([kw_start_he, ascii ''start''], Start),
      ([kw_input_he, ascii ''input''], Input)]"

definition style_rules :: "(jsstring list \<times> node_type) list" where
  "style_rules =
     [([ascii ''ellipse'', ascii ''circle''], Start),
      ([ascii ''rhombus'', ascii ''diamond''], Decision)]"

definition has_keyword :: "jsstring \<Rightarrow> jsstring list \<Rightarrow> bool" where
  "has_keyword s kws = list_ex (js_includes s) kws"

fun first_match :: "jsstring \<Rightarrow> (jsstring list \<times> node_type) list \<Rightarrow> node_type option" where
  "first_match s [] = None"
| "first_match s ((kws, t) # rules) = (if has_keyword s kws then Some t else first_match s rules)"

definition classify_spec :: "(jsstring \<Rightarrow> jsstring) \<Rightarrow> 'a node_scheme \<Rightarrow> node_type" where
  "classify_spec toLowerCase node =
     (case first_match (toLowerCase (n_value node)) label_rules of
        Some t \<Rightarrow> t
      | None \<Rightarrow>
          (case first_match (toLowerCase (n_style node)) style_rules of
             Some t \<Rightarrow> t
           | None \<Rightarrow> Message))"

text \<open>
  An instance of the parameter \<open>toLowerCase\<close> for concrete evaluation: it agrees with
  the built-in on strings whose only cased letters are ASCII.
\<close>

definition toLowerCase_ascii :: "jsstring \<Rightarrow> jsstring" where
  "toLowerCase_ascii s = map (\<lambda>c. if 0x41 \<le> c \<and> c \<le> 0x5A then c + 0x20 else c) s"

section \<open>Serialisation and the output envelope\<close>

text \<open>
  \<open>JSON.stringify\<close> on the script array. The array holds strings, integers, booleans,
  arrays and plain objects only. \<open>QuoteJSONString\<close> follows ECMAScript: the short
  escapes, four-digit hexadecimal escapes for the other control characters and for lone
  surrogates, and a surrogate pair kept as it is.
\<close>

definition hex_digit :: "nat \<Rightarrow> 16 word" where
  "hex_digit d = of_nat (if d < 10 then 48 + d else 87 + d)"

definition unicode_escape :: "16 word \<Rightarrow> jsstring" where
  "unicode_escape c =
     [0x5C, 0x75] @ map hex_digit
       [unat c div 4096, unat c div 256 mod 16, unat c div 16 mod 16, unat c mod 16]"

definition is_lead :: "16 word \<Rightarrow> bool" where
  "is_lead c = (0xD800 \<le> c \<and> c \<le> 0xDBFF)"

definition is_trail :: "16 word \<Rightarrow> bool" where
  "is_trail c = (0xDC00 \<le> c \<and> c \<le> 0xDFFF)"

definition quote_unit :: "16 word \<Rightarrow> jsstring" where
  "quote_unit c =
     (if c = 0x08 then [0x5C, 0x62]
      else if c = 0x09 then [0x5C, 0x74]
      else if c = 0x0A then [0x5C, 0x6E]
      else if c = 0x0C then [0x5C, 0x66]
      else if c = 0x0D then [0x5C, 0x72]
      else if c = 0x22 then [0x5C, 0x22]
      else if c = 0x5C then [0x5C, 0x5C]
      else if c < 0x20 \<or> is_lead c \<or> is_trail c then unicode_escape c
      else [c])"

fun quote_units :: "jsstring \<Rightarrow> jsstring" where
  "quote_units [] = []"
| "quote_units [c] = quote_unit c"
| "quote_units (c # d # cs) =
     (if is_lead c \<and> is_trail d then c # d # quote_units cs
      else quote_unit c @ quote_units (d # cs))"

definition QuoteJSONString :: "jsstring \<Rightarrow> jsstring" where
  "QuoteJSONString s = [0x22] @ quote_units s @ [0x22]"

definition number_to_string :: "int \<Rightarrow> jsstring" where
  "number_to_string n = (if n < 0 then [0x2D] @ decimal (nat (- n)) else decimal (nat n))"

fun join :: "jsstring \<Rightarrow> jsstring list \<Rightarrow> jsstring" where
  "join sep [] = []"
| "join sep [x] = x"
| "join sep (x # y # ys) = x @ sep @ join sep (y # ys)"

fun JSON_stringify :: "json \<Rightarrow> jsstring" where
  "JSON_stringify (JString s) = QuoteJSONString s"
| "JSON_stringify (JNumber n) = number_to_string n"
| "JSON_stringify (JBool b) = (if b then ascii ''true'' else ascii ''false'')"
| "JSON_stringify (JArray xs) = ascii ''['' @ join (ascii '','') (map JSON_stringify xs) @ ascii '']''"
| "JSON_stringify (JObject kvs) =
     ascii ''{'' @ join (ascii '','')
        (map (\<lambda>kv. QuoteJSONString (ascii (fst kv)) @ ascii '':'' @ JSON_stringify (snd kv)) kvs)
       @ ascii ''}''"

text \<open>
  \<open>s.replace(/c/g, r)\<close> for a one-character pattern \<open>c\<close>, and the chain of five
  replacements of \<open>generateCommboxXML\<close>, the ampersand first.
\<close>

definition replace_all :: "16 word \<Rightarrow> jsstring \<Rightarrow> jsstring \<Rightarrow> jsstring" where
  "replace_all c r s = concat (map (\<lambda>x. if x = c then r else [x]) s)"

definition escapeXml :: "jsstring \<Rightarrow> jsstring" where
  "escapeXml s =
     replace_all 0x27 (ascii ''&apos;'')
       (replace_all 0x22 (ascii ''&quot;'')
         (replace_all 0x3E (ascii ''&gt;'')
           (replace_all 0x3C (ascii ''&lt;'')
             (replace_all 0x26 (ascii ''&amp;'') s))))"

definition escapedValue :: "(jsstring \<Rightarrow> jsstring) \<Rightarrow> node list \<Rightarrow> connection list \<Rightarrow> jsstring" where
  "escapedValue toLowerCase nodes connections =
     escapeXml (JSON_stringify (JArray (buildScriptArray toLowerCase nodes connections)))"

text \<open>
  The template literal of the envelope. \<open>timestamp\<close> is the result of
  \<open>new Date().toLocaleString('he-IL')\<close> and \<open>now\<close> that of \<open>Date.now()\<close>.
\<close>

definition dq :: jsstring where "dq = [0x22]"

definition nl :: jsstring where "nl = [0x0A]"

definition generateCommboxXML ::
  "(jsstring \<Rightarrow> jsstring) \<Rightarrow> jsstring \<Rightarrow> nat \<Rightarrow> node list \<Rightarrow> connection list \<Rightarrow> jsstring" where
  "generateCommboxXML toLowerCase timestamp now nodes connections =
     ascii ''<?xml version='' @ dq @ ascii ''1.0'' @ dq @ ascii '' encoding='' @ dq
       @ ascii ''UTF-8'' @ dq @ ascii ''?>'' @ nl
     @ ascii ''<Section Name='' @ dq @ ascii ''Scripts'' @ dq @ ascii ''>'' @ nl
     @ ascii ''    <SCRIPT Value='' @ dq @ escapedValue toLowerCase nodes connections @ dq
       @ ascii '' '' @ nl
     @ ascii ''            EncryptedStreamId='' @ dq @ ascii ''generated_'' @ decimal now @ dq
       @ ascii '' '' @ nl
     @ ascii ''            Name='' @ dq @ ascii ''Bot Generated '' @ timestamp @ dq
       @ ascii '' '' @ nl
     @ ascii ''            Brand='' @ dq @ ascii ''802'' @ dq @ ascii '' />'' @ nl
     @ ascii ''</Section>''"

text \<open>
  What "escaped" means for the payload: none of \<open><\<close>, \<open>>\<close>, \<open>"\<close>, \<open>'\<close> occurs, and
  every \<open>&\<close> starts one of the five entities. \<open>escape_unit\<close> is the escape of one code
  unit.
\<close>

definition entity_names :: "jsstring list" where
  "entity_names = [ascii ''amp;'', ascii ''lt;'', ascii ''gt;'', ascii ''quot;'', ascii ''apos;'']"

fun escaped_ok :: "jsstring \<Rightarrow> bool" where
  "escaped_ok [] = True"
| "escaped_ok (c # cs) =
     (c \<noteq> 0x3C \<and> c \<noteq> 0x3E \<and> c \<noteq> 0x22 \<and> c \<noteq> 0x27
      \<and> (if c = 0x26 then list_ex (starts_with cs) entity_names else True)
      \<and> escaped_ok cs)"

definition escape_unit :: "16 word \<Rightarrow> jsstring" where
  "escape_unit c =
     (if c = 0x26 then ascii ''&amp;''
      else if c = 0x3C then ascii ''&lt;''
      else if c = 0x3E then ascii ''&gt;''
      else if c = 0x22 then ascii ''&quot;''
      else if c = 0x27 then ascii ''&apos;''
      else [c])"

section \<open>Decompressor\<close>

text \<open>
  A thrown error is its message. \<open>String.prototype.trim\<close> strips the ECMAScript white
  space and line terminator code units from both ends.
\<close>

datatype js_error = Thrown jsstring

definition is_js_whitespace :: "16 word \<Rightarrow> bool" where
  "is_js_whitespace c =
     (c \<in> {0x09, 0x0A, 0x0B, 0x0C, 0x0D, 0x20, 0xA0, 0x1680, 0x2028, 0x2029, 0x202F, 0x205F,
            0x3000, 0xFEFF}
      \<or> (0x2000 \<le> c \<and> c \<le> 0x200A))"

definition trim :: "jsstring \<Rightarrow> jsstring" where
  "trim s = rev (dropWhile is_js_whitespace (rev (dropWhile is_js_whitespace s)))"

text \<open>
  The result of the XML parser (xml2js with its default options): an element without
  attributes and without child elements is its text; any other element is an object
  with the attributes under \<open>$\<close>, the text under \<open>_\<close> and, per child element name,
  the array of the children of that name. The accessors are the property reads of the
  source; on a string they give \<open>undefined\<close>. The parser gives \<open>null\<close> (\<open>None\<close>) for
  an input without an element, and otherwise an object with the root element under
  its name.
\<close>

datatype xml2js =
    XText jsstring
  | XElem "(jsstring \<times> jsstring) list option" "jsstring option" "(jsstring \<times> xml2js list) list"

fun attrs_of :: "xml2js \<Rightarrow> (jsstring \<times> jsstring) list option" where
  "attrs_of (XText s) = None"
| "attrs_of (XElem a t c) = a"

fun text_of :: "xml2js \<Rightarrow> jsstring option" where
  "text_of (XText s) = None"
| "text_of (XElem a t c) = t"

fun child :: "xml2js \<Rightarrow> jsstring \<Rightarrow> xml2js list option" where
  "child (XText s) k = None"
| "child (XElem a t c) k = map_of c k"


type_synonym parsed_xml = "(jsstring \<times> xml2js) option"

text \<open>
  The library functions the decoder calls are parameters: the XML parser,
  \<open>Buffer.from(s, 'base64')\<close> (which returns bytes for every string and does not
  throw), \<open>pako.inflateRaw(bytes, {to: 'string'})\<close> and \<open>decodeURIComponent\<close>. The
  inflater throws on bytes that are no deflate data, and returns \<open>undefined\<close> (\<open>None\<close>)
  without throwing on a stream that ends before its last block is complete.
  \<open>decodeURIComponent\<close> converts its argument to a string first, which makes the text
  \<open>undefined\<close> of \<open>undefined\<close>: that conversion is \<open>js_to_string\<close>.
\<close>

record platform =
  parseStringPromise :: "jsstring \<Rightarrow> js_error + parsed_xml"
  bufferFromBase64 :: "jsstring \<Rightarrow> 8 word list"
  inflateRaw :: "8 word list \<Rightarrow> js_error + jsstring option"
  decodeURIComponent :: "jsstring \<Rightarrow> js_error + jsstring"

definition js_to_string :: "jsstring option \<Rightarrow> jsstring" where
  "js_to_string v = (case v of Some s \<Rightarrow> s | None \<Rightarrow> ascii ''undefined'')"

definition decompress_failure :: js_error where
  "decompress_failure = Thrown (ascii ''Failed to decompress Draw.io file'')"

definition decodeDrawio :: "platform \<Rightarrow> jsstring \<Rightarrow> js_error + jsstring" where
  "decodeDrawio p compressedContent =
     (let trimmed = trim compressedContent;
          decoded = bufferFromBase64 p trimmed
      in case inflateRaw p decoded of
           Inl error \<Rightarrow> Inl decompress_failure
         | Inr decompressed \<Rightarrow>
             (case decodeURIComponent p (js_to_string decompressed) of
                Inl error \<Rightarrow> Inl decompress_failure
              | Inr urlDecoded \<Rightarrow> Inr urlDecoded))"

section \<open>Graph extraction\<close>

text \<open>
  \<open>graphModel.mxGraphModel?.root?.[0]?.mxCell || []\<close>; when \<open>graphModel\<close> is \<open>null\<close>
  the read throws inside the \<open>try\<close> of the extractor, which then returns the empty
  list. \<open>cell_node\<close> and \<open>cell_connection\<close> are the bodies of the two \<open>forEach\<close>.
\<close>

definition graph_cells :: "parsed_xml \<Rightarrow> xml2js list" where
  "graph_cells graphModel =
     (case graphModel of
        None \<Rightarrow> []
      | Some (rootName, x) \<Rightarrow>
          if rootName \<noteq> ascii ''mxGraphModel'' then []
          else (case child x (ascii ''root'') of
                  Some (r # _) \<Rightarrow> (case child r (ascii ''mxCell'') of Some cells \<Rightarrow> cells | None \<Rightarrow> [])
                | _ \<Rightarrow> []))"

definition cell_attrs :: "xml2js \<Rightarrow> (jsstring \<times> jsstring) list" where
  "cell_attrs cell = (case attrs_of cell of Some attrs \<Rightarrow> attrs | None \<Rightarrow> [])"

definition attr_or_empty :: "(jsstring \<times> jsstring) list \<Rightarrow> string \<Rightarrow> jsstring" where
  "attr_or_empty attrs k = (case map_of attrs (ascii k) of Some v \<Rightarrow> v | None \<Rightarrow> [])"

definition cell_geometry :: "xml2js \<Rightarrow> (jsstring \<times> jsstring) list" where
  "cell_geometry cell =
     (case child cell (ascii ''mxGeometry'') of
        Some (g # _) \<Rightarrow> cell_attrs g
      | _ \<Rightarrow> [])"

definition cell_node :: "xml2js \<Rightarrow> node list" where
  "cell_node cell =
     (let attrs = cell_attrs cell
      in if map_of attrs (ascii ''vertex'') = Some (ascii ''1'') \<or> attr_or_empty attrs ''value'' \<noteq> []
         then [\<lparr>n_id = map_of attrs (ascii ''id''),
                n_value = attr_or_empty attrs ''value'',
                n_style = attr_or_empty attrs ''style'',
                n_parent = map_of attrs (ascii ''parent''),
                n_geometry = cell_geometry cell\<rparr>]
         else [])"

definition extractNodes :: "parsed_xml \<Rightarrow> node list" where
  "extractNodes graphModel = concat (map cell_node (graph_cells graphModel))"

definition cell_connection :: "xml2js \<Rightarrow> connection list" where
  "cell_connection cell =
     (let attrs = cell_attrs cell
      in if map_of attrs (ascii ''edge'') = Some (ascii ''1'')
         then [\<lparr>c_id = map_of attrs (ascii ''id''),
                c_source = map_of attrs (ascii ''source''),
                c_target = map_of attrs (ascii ''target''),
                c_value = attr_or_empty attrs ''value''\<rparr>]
         else [])"

definition extractConnections :: "parsed_xml \<Rightarrow> connection list" where
  "extractConnections graphModel = concat (map cell_connection (graph_cells graphModel))"

section \<open>Parsing a file and the conversion endpoint\<close>






text \<open>
  The handler of \<open>POST /api/converter/convert\<close>: the status code and the JSON body.
  \<open>file\<close> is the uploaded file as text, \<open>None\<close> when no file was uploaded; the three
  readings of the clock are in \<open>clock\<close>.
\<close>

record clock =
  timestamp :: jsstring
  now_stream :: nat
  now_filename :: nat
  now_mxfilename :: nat





section \<open>The decompressor and the compression procedure as the specification has them\<close>

text \<open>
  Modelled from the spec: the compression procedure that matches the decompressor
  (percent-encode, raw-deflate, base64) is named by the specification and is not part
  of the repository; its three library functions are parameters.
\<close>

definition compressDrawio ::
  "(jsstring \<Rightarrow> js_error + jsstring) \<Rightarrow> (jsstring \<Rightarrow> 8 word list) \<Rightarrow> (8 word list \<Rightarrow> jsstring)
     \<Rightarrow> jsstring \<Rightarrow> js_error + jsstring" where
  "compressDrawio encodeURIComponent deflateRaw toBase64 markup =
     (case encodeURIComponent markup of
        Inl error \<Rightarrow> Inl error
      | Inr encoded \<Rightarrow> Inr (toBase64 (deflateRaw encoded)))"

text \<open>
  The decompressor as the specification words it, to compare \<open>decodeDrawio\<close> with: it
  reports a failure of its own kind for each of its three steps, the first for
  malformed base64, the second also for a stream on which the inflater returns
  \<open>undefined\<close>. The code has no such failure types.
\<close>

datatype decode_error = InvalidBase64 | InflateFailure | InvalidEncoding

definition base64_char :: "16 word \<Rightarrow> bool" where
  "base64_char c =
     ((0x41 \<le> c \<and> c \<le> 0x5A) \<or> (0x61 \<le> c \<and> c \<le> 0x7A) \<or> (0x30 \<le> c \<and> c \<le> 0x39)
      \<or> c = 0x2B \<or> c = 0x2F)"

definition valid_base64 :: "jsstring \<Rightarrow> bool" where
  "valid_base64 s =
     (let t = filter (\<lambda>c. \<not> is_js_whitespace c) s;
          body = takeWhile (\<lambda>c. c \<noteq> 0x3D) t;
          pad = dropWhile (\<lambda>c. c \<noteq> 0x3D) t
      in list_all base64_char body \<and> (pad = [] \<or> pad = [0x3D] \<or> pad = [0x3D, 0x3D])
         \<and> length t mod 4 = 0)"

definition decompress_spec :: "platform \<Rightarrow> jsstring \<Rightarrow> decode_error + jsstring" where
  "decompress_spec p payload =
     (if \<not> valid_base64 payload then Inl InvalidBase64
      else (case inflateRaw p (bufferFromBase64 p (trim payload)) of
              Inl error \<Rightarrow> Inl InflateFailure
            | Inr None \<Rightarrow> Inl InflateFailure
            | Inr (Some inflated) \<Rightarrow>
                (case decodeURIComponent p inflated of
                   Inl error \<Rightarrow> Inl InvalidEncoding
                 | Inr markup \<Rightarrow> Inr markup)))"

section \<open>Invariant of the traversal and example diagrams\<close>

text \<open>
  The invariant of the state during the traversal: array and counter agree, entries 0
  and 1 are the two leading fixed records, and the entry at index \<open>i\<close> from 2 on is the
  record of the node that was processed as number \<open>i - 2\<close>, a node of the node map,
  with a parent id that an earlier entry (other than entry 0) carries. \<open>keyed\<close> says
  that every node of the map is stored under its own id.
\<close>

definition has_id :: "json list \<Rightarrow> jsstring \<Rightarrow> bool" where
  "has_id arr p = (\<exists>j. 1 \<le> j \<and> j < length arr \<and> get_prop (arr ! j) ''id'' = Some (JString p))"

definition script_inv :: "(jsstring \<Rightarrow> jsstring) \<Rightarrow> nodeMap \<Rightarrow> gen_state \<Rightarrow> bool" where
  "script_inv l nm st =
     (length (scriptArray st) = nodeIndex st
      \<and> length (processedNodes st) + 2 = nodeIndex st
      \<and> distinct (processedNodes st)
      \<and> take 2 (scriptArray st) = [configRecord, rootRecord]
      \<and> (\<forall>i. 2 \<le> i \<and> i < nodeIndex st \<longrightarrow>
            (\<exists>(h::hnode) p. scriptArray st ! i = convertToCommboxNode l h i p
                   \<and> map_of nm (n_id h) = Some h
                   \<and> n_id h = processedNodes st ! (i - 2)
                   \<and> has_id (take i (scriptArray st)) p)))"

definition keyed :: "nodeMap \<Rightarrow> bool" where
  "keyed nm = (\<forall>k h. map_of nm k = Some h \<longrightarrow> n_id h = k)"

definition fixedRecords :: "json list" where
  "fixedRecords = [groupRecord, transferRecord, errorRecord, unknownRecord]"

text \<open>
  Example diagrams: a root with a cycle \<open>a \<rightarrow> b \<rightarrow> a\<close> below it, where the label of \<open>a\<close>
  contains \<open><\<close>, \<open>&\<close> and \<open>"\<close>; and eleven nodes without edges.
\<close>

definition mk_node :: "string \<Rightarrow> jsstring \<Rightarrow> string \<Rightarrow> string \<Rightarrow> node" where
  "mk_node i v s p =
     \<lparr>n_id = Some (ascii i), n_value = v, n_style = ascii s, n_parent = Some (ascii p),
      n_geometry = []\<rparr>"

definition mk_edge :: "string \<Rightarrow> string \<Rightarrow> string \<Rightarrow> connection" where
  "mk_edge i s t =
     \<lparr>c_id = Some (ascii i), c_source = Some (ascii s), c_target = Some (ascii t), c_value = []\<rparr>"

definition cyclic_nodes :: "node list" where
  "cyclic_nodes =
     [mk_node ''r'' (ascii ''Start'') ''ellipse;html=1;'' ''1'',
      mk_node ''a'' (ascii ''if a<b & c='' @ [0x22] @ ascii ''x'' @ [0x22]) ''rhombus;html=1;'' ''1'',
      mk_node ''b'' (ascii ''Unknown error'') ''rounded=0;html=1;'' ''1'']"

definition cyclic_edges :: "connection list" where
  "cyclic_edges = [mk_edge ''e1'' ''r'' ''a'', mk_edge ''e2'' ''a'' ''b'', mk_edge ''e3'' ''b'' ''a'']"

definition eleven_nodes :: "node list" where
  "eleven_nodes = map (\<lambda>c. mk_node [c] (ascii ''Step'') ''rounded=1;html=1;'' ''1'') ''abcdefghijk''"

text \<open>
  A graph model with a container: the cell \<open>a\<close> lies in the swimlane \<open>grp\<close>, there is no
  edge.
\<close>

definition mx_cell :: "(string \<times> jsstring) list \<Rightarrow> xml2js" where
  "mx_cell attrs = XElem (Some (map (\<lambda>(k, v). (ascii k, v)) attrs)) None []"

definition container_model :: parsed_xml where
  "container_model =
     Some (ascii ''mxGraphModel'',
       XElem None None
         [(ascii ''root'',
           [XElem None None
             [(ascii ''mxCell'',
               [mx_cell [(''id'', ascii ''0'')],
                mx_cell [(''id'', ascii ''1''), (''parent'', ascii ''0'')],
                mx_cell [(''id'', ascii ''grp''), (''value'', ascii ''Orders''),
                         (''style'', ascii ''swimlane;html=1;''), (''vertex'', ascii ''1''),
                         (''parent'', ascii ''1'')],
                mx_cell [(''id'', ascii ''a''), (''value'', ascii ''Hello''),
                         (''style'', ascii ''rounded=1;html=1;''), (''vertex'', ascii ''1''),
                         (''parent'', ascii ''grp'')]])]])])"

text \<open>
  A file, its payload and the values the library functions take on them:
  \<open>example_payload\<close> is the base64 text of the raw-deflate stream \<open>example_deflated\<close> of
  the percent-encoded markup; \<open>////\<close> is the base64 text of three bytes \<open>0xFF\<close>,
  which no raw-deflate stream starts with (block type 3), and the decoder skips the
  \<open>!\<close> of \<open>!////\<close>; \<open>UwUA\<close> is the base64 text of the raw-deflate stream of the
  string \<open>%\<close>, which is no percent-encoding, and \<open>UwU=\<close> that of its first two
  bytes, a stream that ends early. The functions of \<open>example_platform\<close> are tables of
  these values.
\<close>

definition example_markup :: jsstring where
  "example_markup =
     ascii ''<mxGraphModel><root><mxCell id='' @ dq @ ascii ''0'' @ dq
       @ ascii ''/></root></mxGraphModel>''"

definition example_encoded :: jsstring where
  "example_encoded =
     ascii ''%3CmxGraphModel%3E%3Croot%3E%3CmxCell%20id%3D%220%22%2F%3E%3C%2Froot%3E%3C%2FmxGraphModel%3E''"

definition example_deflated :: "8 word list" where
  "example_deflated =
       [83, 53, 118, 206, 173, 112, 47, 74, 44, 200, 240, 205, 79, 73, 205, 81, 53, 118,
        85, 53, 118, 46, 202, 207, 47, 129, 176, 114, 43, 156, 83, 115, 114, 84, 141,
        12, 50, 83, 84, 141, 93, 84, 141, 140, 12, 128, 88, 213, 200, 13, 34, 11, 100,
        32, 148, 2, 57, 104, 38, 1, 0]"

definition example_payload :: jsstring where
  "example_payload =
     ascii ''UzV2zq1wL0osyPDNT0nNUTV2VTV2LsrPL4GwciucU3NyVI0MMlNUjV1UjYwMgFjVyA0iC2QglAI5aCYBAA==''"

definition example_file :: "jsstring \<Rightarrow> jsstring" where
  "example_file payload = ascii ''<mxfile><diagram>'' @ payload @ ascii ''</diagram></mxfile>''"

definition example_platform :: platform where
  "example_platform =
     \<lparr>parseStringPromise =
        (\<lambda>s. if s = example_file example_payload
             then Inr (Some (ascii ''mxfile'',
                    XElem None None [(ascii ''diagram'', [XText example_payload])]))
             else if s = example_file (ascii ''////'')
             then Inr (Some (ascii ''mxfile'',
                    XElem None None [(ascii ''diagram'', [XText (ascii ''////'')])]))
             else if s = example_file (ascii ''UwU='')
             then Inr (Some (ascii ''mxfile'',
                    XElem None None [(ascii ''diagram'', [XText (ascii ''UwU='')])]))
             else if s = example_file (ascii ''UwUA'')
             then Inr (Some (ascii ''mxfile'',
                    XElem None None [(ascii ''diagram'', [XText (ascii ''UwUA'')])]))
             else if s = ascii ''<svg></svg>''
             then Inr (Some (ascii ''svg'', XText []))
             else if s = ascii ''undefined''
             then Inl (Thrown (ascii ''Non-whitespace before first tag.'' @ nl @ ascii ''Line: 0''
                    @ nl @ ascii ''Column: 1'' @ nl @ ascii ''Char: u''))
             else if s = example_markup
             then Inr (Some (ascii ''mxGraphModel'',
                    XElem None None
                      [(ascii ''root'',
                        [XElem None None [(ascii ''mxCell'', [mx_cell [(''id'', ascii ''0'')]])]])]))
             else Inl (Thrown (ascii ''Non-whitespace before first tag.''))),
      bufferFromBase64 =
        (\<lambda>s. if s = example_payload then example_deflated
             else if s = ascii ''////'' \<or> s = ascii ''!////'' then [0xFF, 0xFF, 0xFF]
             else if s = ascii ''UwUA'' then [0x53, 0x05, 0x00]
             else if s = ascii ''UwU='' then [0x53, 0x05]
             else []),
      inflateRaw =
        (\<lambda>b. if b = example_deflated then Inr (Some example_encoded)
             else if b = [0x53, 0x05, 0x00] then Inr (Some (ascii ''%''))
             else if b = [0x53, 0x05] then Inr None
             else Inl (Thrown (ascii ''invalid block type''))),
      decodeURIComponent =
        (\<lambda>s. if s = example_encoded then Inr example_markup
             else if s = ascii ''undefined'' then Inr (ascii ''undefined'')
             else Inl (Thrown (ascii ''URI malformed'')))\<rparr>"

definition example_encodeURIComponent :: "jsstring \<Rightarrow> js_error + jsstring" where
  "example_encodeURIComponent s =
     (if s = example_markup then Inr example_encoded else Inl (Thrown (ascii ''URI malformed'')))"

definition example_deflateRaw :: "jsstring \<Rightarrow> 8 word list" where
  "example_deflateRaw s = (if s = example_encoded then example_deflated else [0x03, 0x00])"

definition example_toBase64 :: "8 word list \<Rightarrow> jsstring" where
  "example_toBase64 b = (if b = example_deflated then example_payload else ascii ''AwA='')"


section \<open>Termination of the traversal\<close>

text \<open>
  The inner call of \<open>processChildren\<close> is nested, so termination needs a fact about the
  result of \<open>processNode\<close>: the set of processed ids only grows. Each call that emits
  a node removes its id from the ids still to do, of which there are finitely many.
\<close>

lemma processed_emit: "processedNodes (emit l node pid st) = processedNodes st @ [n_id node]"
  by (simp add: emit_def)

lemma processed_mono_partial:
  "processNode_processChildren_dom (Inl (l, nm, node, pid, st)) \<Longrightarrow>
     set (processedNodes st) \<subseteq> set (processedNodes (processNode l nm node pid st))"
  "processNode_processChildren_dom (Inr (l, nm, cs, pid, st)) \<Longrightarrow>
     set (processedNodes st) \<subseteq> set (processedNodes (processChildren l nm cs pid st))"
proof (induction l nm node pid st and l nm cs pid st rule: processNode_processChildren.pinduct)
  case (1 l nm node pid st)
  then show ?case
    by (auto simp: processNode.psimps processed_emit)
next
  case (2 l nm pid st)
  then show ?case by (simp add: processChildren.psimps)
next
  case (3 l nm c rest pid st)
  then show ?case
    by (simp add: processChildren.psimps split: option.splits) blast
qed

lemma finite_todo: "finite (todo nm st)"
  by (simp add: todo_def node_ids_def)

lemma map_of_node_ids: "map_of nm k = Some h \<Longrightarrow> n_id h \<in> node_ids nm"
  by (force simp: node_ids_def dest: map_of_SomeD)

termination processNode
proof (relation "inv_image (less_than <*lex*> less_than) dfs_measure")
  show "wf (inv_image (less_than <*lex*> less_than) dfs_measure)"
    by (intro wf_inv_image wf_lex_prod wf_less_than)
next
  fix l nm pid and st :: gen_state and node :: hnode
  assume new: "n_id node \<notin> set (processedNodes st)"
  have "todo nm (emit l node pid st) \<subset> insert (n_id node) (node_ids nm) - set (processedNodes st)"
    using new by (auto simp: todo_def processed_emit)
  then have "card (todo nm (emit l node pid st))
      < card (insert (n_id node) (node_ids nm) - set (processedNodes st))"
    by (intro psubset_card_mono) (simp_all add: node_ids_def)
  then show "(Inr (l, nm, children node, nodeId (nodeIndex st), emit l node pid st),
       Inl (l, nm, node, pid, st)) \<in> inv_image (less_than <*lex*> less_than) dfs_measure"
    by (simp add: dfs_measure_def)
next
  fix l c rest pid and nm :: nodeMap and st :: gen_state and child :: hnode
  assume "map_of nm c = Some child"
  then have "insert (n_id child) (node_ids nm) = node_ids nm"
    by (auto dest: map_of_node_ids)
  then show "(Inl (l, nm, child, pid, st), Inr (l, nm, c # rest, pid, st))
     \<in> inv_image (less_than <*lex*> less_than) dfs_measure"
    by (simp add: dfs_measure_def todo_def)
next
  fix l c rest pid and nm :: nodeMap and st :: gen_state and child :: hnode
  assume "map_of nm c = Some child"
    and dom: "processNode_processChildren_dom (Inl (l, nm, child, pid, st))"
  have "todo nm (processNode l nm child pid st) \<subseteq> todo nm st"
    using processed_mono_partial(1)[OF dom] by (auto simp: todo_def)
  then have "card (todo nm (processNode l nm child pid st)) \<le> card (todo nm st)"
    by (intro card_mono finite_todo)
  then show "(Inr (l, nm, rest, pid, processNode l nm child pid st), Inr (l, nm, c # rest, pid, st))
     \<in> inv_image (less_than <*lex*> less_than) dfs_measure"
    by (auto simp: dfs_measure_def)
next
  fix l nm c rest pid and st :: gen_state
  show "(Inr (l, nm, rest, pid, st), Inr (l, nm, c # rest, pid, st))
     \<in> inv_image (less_than <*lex*> less_than) dfs_measure"
    by (simp add: dfs_measure_def)
qed


section \<open>The emitted records\<close>

declare processNode.simps [simp del]

lemma get_prop_convert_id [simp]:
  "get_prop (convertToCommboxNode l h i p) ''id'' = Some (JString (nodeId i))"
  by (simp add: convertToCommboxNode_def base_record_def Let_def split: node_type.split)

lemma get_prop_convert_parent [simp]:
  "get_prop (convertToCommboxNode l h i p) ''parent'' = Some (JString p)"
  by (simp add: convertToCommboxNode_def base_record_def Let_def split: node_type.split)

lemma get_prop_convert_attachments [simp]:
  "get_prop (convertToCommboxNode l h i p) ''attachments'' = Some (JObject [])"
  by (simp add: convertToCommboxNode_def base_record_def Let_def split: node_type.split)

lemma get_prop_convert_buttonDisplayMode [simp]:
  "get_prop (convertToCommboxNode l h i p) ''buttonDisplayMode'' = None"
  by (simp add: convertToCommboxNode_def base_record_def Let_def split: node_type.split)

lemma has_id_append:
  assumes "has_id arr p"
  shows "has_id (arr @ ext) p"
proof -
  from assms obtain j where "1 \<le> j" "j < length arr" "get_prop (arr ! j) ''id'' = Some (JString p)"
    unfolding has_id_def by blast
  then show ?thesis
    unfolding has_id_def by (intro exI[of _ j]) (simp add: nth_append)
qed

lemma has_id_take: "has_id (take i arr) p \<Longrightarrow> has_id arr p"
  by (metis append_take_drop_id has_id_append)

lemma script_inv_initial: "script_inv l nm initial_state"
  by (auto simp: script_inv_def initial_state_def)

lemma emit_inv:
  assumes inv: "script_inv l nm st" and pid: "has_id (scriptArray st) pid"
    and new: "n_id node \<notin> set (processedNodes st)"
    and node: "map_of nm (n_id node) = Some node"
  shows "script_inv l nm (emit l node pid st)"
    and "has_id (scriptArray (emit l node pid st)) (nodeId (nodeIndex st))"
proof -
  have len: "length (scriptArray st) = nodeIndex st" "length (processedNodes st) + 2 = nodeIndex st"
    using inv by (simp_all add: script_inv_def)
  have old: "\<And>i. 2 \<le> i \<Longrightarrow> i < nodeIndex st \<Longrightarrow>
            (\<exists>(h::hnode) p. scriptArray st ! i = convertToCommboxNode l h i p
                   \<and> map_of nm (n_id h) = Some h
                   \<and> n_id h = processedNodes st ! (i - 2)
                   \<and> has_id (take i (scriptArray st)) p)"
    using inv by (simp add: script_inv_def)
  show "has_id (scriptArray (emit l node pid st)) (nodeId (nodeIndex st))"
    unfolding has_id_def using len
    by (intro exI[of _ "nodeIndex st"]) (simp add: emit_def nth_append)
  show "script_inv l nm (emit l node pid st)"
    unfolding script_inv_def
  proof (intro conjI allI impI)
    show "length (scriptArray (emit l node pid st)) = nodeIndex (emit l node pid st)"
      using len by (simp add: emit_def)
    show "length (processedNodes (emit l node pid st)) + 2 = nodeIndex (emit l node pid st)"
      using len by (simp add: emit_def)
    show "distinct (processedNodes (emit l node pid st))"
      using inv new by (simp add: emit_def script_inv_def)
    show "take 2 (scriptArray (emit l node pid st)) = [configRecord, rootRecord]"
      using inv len by (simp add: emit_def script_inv_def)
  next
    fix i assume i: "2 \<le> i \<and> i < nodeIndex (emit l node pid st)"
    show "\<exists>(h::hnode) p. scriptArray (emit l node pid st) ! i = convertToCommboxNode l h i p
                   \<and> map_of nm (n_id h) = Some h
                   \<and> n_id h = processedNodes (emit l node pid st) ! (i - 2)
                   \<and> has_id (take i (scriptArray (emit l node pid st))) p"
    proof (cases "i < nodeIndex st")
      case True
      with old[of i] i len show ?thesis
        by (auto simp: emit_def nth_append)
    next
      case False
      with i have "i = nodeIndex st" by (simp add: emit_def)
      moreover from this len have "i - 2 = length (processedNodes st)" by simp
      ultimately show ?thesis using len pid node
        by (intro exI[of _ node] exI[of _ pid]) (simp add: emit_def nth_append)
    qed
  qed
qed

lemma processNode_inv:
  "script_inv l nm st \<Longrightarrow> has_id (scriptArray st) pid \<Longrightarrow> keyed nm \<Longrightarrow>
     map_of nm (n_id node) = Some node \<Longrightarrow>
     script_inv l nm (processNode l nm node pid st)
     \<and> prefix (scriptArray st) (scriptArray (processNode l nm node pid st))"
  "script_inv l nm st \<Longrightarrow> has_id (scriptArray st) pid \<Longrightarrow> keyed nm \<Longrightarrow>
     script_inv l nm (processChildren l nm cs pid st)
     \<and> prefix (scriptArray st) (scriptArray (processChildren l nm cs pid st))"
proof (induction l nm node pid st and l nm cs pid st rule: processNode_processChildren.induct)
  case (1 l nm node pid st)
  show ?case
  proof (cases "n_id node \<in> set (processedNodes st)")
    case True
    with 1 show ?thesis by (simp add: processNode.simps)
  next
    case False
    note e = emit_inv[OF "1.prems"(1,2) False "1.prems"(4)]
    have "prefix (scriptArray st) (scriptArray (emit l node pid st))"
      by (simp add: emit_def)
    with "1.IH"[OF False e "1.prems"(3)] False show ?thesis
      by (auto simp: processNode.simps intro: prefix_order.trans)
  qed
next
  case (2 l nm pid st)
  then show ?case by simp
next
  case (3 l nm childId rest pid st)
  show ?case
  proof (cases "map_of nm childId")
    case None
    with "3.IH"(1)[OF None "3.prems"] show ?thesis by simp
  next
    case (Some childNode)
    from Some "3.prems"(3) have "map_of nm (n_id childNode) = Some childNode"
      by (simp add: keyed_def)
    note a = "3.IH"(2)[OF Some "3.prems" this]
    from a "3.prems"(2) have "has_id (scriptArray (processNode l nm childNode pid st)) pid"
      by (auto simp: prefix_def has_id_append)
    from "3.IH"(3)[OF Some _ this "3.prems"(3)] a Some show ?thesis
      by (auto intro: prefix_order.trans)
  qed
qed

lemma script_inv_root: "script_inv l nm st \<Longrightarrow> has_id (scriptArray st) (ascii ''node_0'')"
proof -
  assume inv: "script_inv l nm st"
  then have t: "take 2 (scriptArray st) = [configRecord, rootRecord]"
    by (simp add: script_inv_def)
  then have "length (take 2 (scriptArray st)) = 2" by simp
  then have len: "2 \<le> length (scriptArray st)" by simp
  have "scriptArray st ! 1 = take 2 (scriptArray st) ! 1" by simp
  with t have "scriptArray st ! 1 = rootRecord" by simp
  with len show ?thesis
    unfolding has_id_def by (intro exI[of _ 1]) (simp add: rootRecord_def)
qed

lemma processRoots_inv:
  "script_inv l nm st \<Longrightarrow> keyed nm \<Longrightarrow> \<forall>h\<in>set hs. map_of nm (n_id h) = Some h \<Longrightarrow>
     script_inv l nm (processRoots l nm hs st)"
proof (induction hs arbitrary: st)
  case Nil
  then show ?case by (simp add: processRoots_def)
next
  case (Cons h hs)
  from Cons.prems(3) have h: "map_of nm (n_id h) = Some h" by simp
  from processNode_inv(1)[OF Cons.prems(1) script_inv_root[OF Cons.prems(1)] Cons.prems(2) h]
  have "script_inv l nm (processNode l nm h (ascii ''node_0'') st)" by simp
  from Cons.IH[OF this Cons.prems(2)] Cons.prems(3) show ?case by (simp add: processRoots_def)
qed

lemma keyed_update: "keyed nm \<Longrightarrow> n_id h = k \<Longrightarrow> keyed (AList.update k h nm)"
  by (simp add: keyed_def update_conv')

lemma keyed_foldl_update:
  "keyed nm \<Longrightarrow> keyed (foldl (\<lambda>nm node. AList.update (n_id node) (with_children node []) nm) nm nodes)"
proof (induction nodes arbitrary: nm)
  case Nil
  then show ?case by simp
next
  case (Cons a nodes)
  have "n_id (with_children a []) = n_id a" by (simp add: with_children_def)
  from keyed_update[OF Cons.prems this] have "keyed (AList.update (n_id a) (with_children a []) nm)" .
  from Cons.IH[OF this] show ?case by simp
qed

lemma keyed_initNodeMap: "keyed (initNodeMap nodes)"
proof -
  have "keyed []" by (simp add: keyed_def)
  from keyed_foldl_update[OF this] show ?thesis
    by (simp add: initNodeMap_def)
qed

lemma connect_unfold:
  "connect nm conn =
     (case map_of nm (c_source conn) of
        None \<Rightarrow> nm
      | Some s \<Rightarrow>
          (case map_of nm (c_target conn) of
             None \<Rightarrow> nm
           | Some t \<Rightarrow>
               (case map_of (AList.update (c_source conn) (s\<lparr>children := children s @ [n_id t]\<rparr>) nm)
                       (c_target conn) of
                  None \<Rightarrow> AList.update (c_source conn) (s\<lparr>children := children s @ [n_id t]\<rparr>) nm
                | Some t' \<Rightarrow>
                    AList.update (c_target conn) (t'\<lparr>n_parent := n_id s\<rparr>)
                      (AList.update (c_source conn) (s\<lparr>children := children s @ [n_id t]\<rparr>) nm))))"
  by (simp add: connect_def Let_def split: option.split)

lemma keyed_lookup: "keyed nm \<Longrightarrow> map_of nm k = Some h \<Longrightarrow> n_id h = k"
  unfolding keyed_def by blast

lemma keyed_connect:
  assumes k: "keyed nm"
  shows "keyed (connect nm conn)"
proof (cases "map_of nm (c_source conn)")
  case None
  with k show ?thesis by (simp add: connect_unfold)
next
  case src: (Some s)
  show ?thesis
  proof (cases "map_of nm (c_target conn)")
    case None
    with k src show ?thesis by (simp add: connect_unfold)
  next
    case tgt: (Some t)
    let ?nm1 = "AList.update (c_source conn) (s\<lparr>children := children s @ [n_id t]\<rparr>) nm"
    have "n_id (s\<lparr>children := children s @ [n_id t]\<rparr>) = c_source conn"
      using keyed_lookup[OF k src] by simp
    from keyed_update[OF k this] have k1: "keyed ?nm1" .
    show ?thesis
    proof (cases "map_of ?nm1 (c_target conn)")
      case None
      then have "connect nm conn = ?nm1"
        by (simp only: connect_unfold src tgt option.case)
      with k1 show ?thesis by simp
    next
      case (Some t')
      then have c: "connect nm conn = AList.update (c_target conn) (t'\<lparr>n_parent := n_id s\<rparr>) ?nm1"
        by (simp only: connect_unfold src tgt option.case)
      have "n_id (t'\<lparr>n_parent := n_id s\<rparr>) = c_target conn"
        using keyed_lookup[OF k1 Some] by simp
      from keyed_update[OF k1 this] c show ?thesis by simp
    qed
  qed
qed

lemma keyed_foldl_connect: "keyed nm \<Longrightarrow> keyed (foldl connect nm connections)"
  by (induction connections arbitrary: nm) (simp_all add: keyed_connect)

lemma keyed_buildHierarchy: "keyed (fst (buildHierarchy nodes connections))"
  by (simp add: buildHierarchy_def Let_def keyed_foldl_connect keyed_initNodeMap)

lemma find_roots_in_map:
  assumes k: "keyed nm" and h: "h \<in> set (find_roots nm nodes)"
  shows "map_of nm (n_id h) = Some h"
proof -
  from h obtain node where e: "h \<in> set (root_entry nm node)"
    by (auto simp: find_roots_def)
  show ?thesis
  proof (cases "map_of nm (n_id node)")
    case None
    with e show ?thesis by (simp add: root_entry_def)
  next
    case (Some hn)
    with e have "h = hn" by (simp add: root_entry_def split: if_splits)
    with Some have m: "map_of nm (n_id node) = Some h" by simp
    from keyed_lookup[OF k m] m show ?thesis by simp
  qed
qed

lemma traverse_inv:
  "script_inv l (fst (buildHierarchy nodes connections)) (traverse l nodes connections)"
proof -
  obtain nm hs where b: "buildHierarchy nodes connections = (nm, hs)"
    by (cases "buildHierarchy nodes connections")
  from keyed_buildHierarchy[of nodes connections] b have k: "keyed nm" by simp
  from b have "hs = find_roots nm nodes"
    by (auto simp: buildHierarchy_def Let_def)
  with k have "\<forall>h\<in>set hs. map_of nm (n_id h) = Some h"
    by (auto dest: find_roots_in_map)
  from processRoots_inv[OF script_inv_initial k this] b show ?thesis
    by (simp add: traverse_def)
qed

lemma nodeId_3: "nodeId 3 = ascii ''n_3''"
  by (simp add: nodeId_def decimal.simps digit_def ascii_def)

lemma nodeId_10: "nodeId 10 = ascii ''n_10''"
  by (simp add: nodeId_def decimal.simps digit_def ascii_def)

lemma nodeId_11: "nodeId 11 = ascii ''n_11''"
  by (simp add: nodeId_def decimal.simps digit_def ascii_def)

lemma nodeId_12: "nodeId 12 = ascii ''n_12''"
  by (simp add: nodeId_def decimal.simps digit_def ascii_def)

lemma script_inv_id:
  assumes "script_inv l nm st" "2 \<le> i" "i < nodeIndex st"
  shows "get_prop (scriptArray st ! i) ''id'' = Some (JString (nodeId i))"
    and "get_prop (scriptArray st ! i) ''attachments'' = Some (JObject [])"
    and "get_prop (scriptArray st ! i) ''buttonDisplayMode'' = None"
proof -
  from assms obtain h :: hnode and p where "scriptArray st ! i = convertToCommboxNode l h i p"
    unfolding script_inv_def by blast
  then show "get_prop (scriptArray st ! i) ''id'' = Some (JString (nodeId i))"
    and "get_prop (scriptArray st ! i) ''attachments'' = Some (JObject [])"
    and "get_prop (scriptArray st ! i) ''buttonDisplayMode'' = None"
    by simp_all
qed

lemma dup_not_distinct:
  assumes "i < j" "j < length xs" "f (xs ! i) = f (xs ! j)"
  shows "\<not> distinct (map f xs)"
proof
  assume "distinct (map f xs)"
  then have "\<forall>a<length (map f xs). \<forall>b<length (map f xs). a \<noteq> b \<longrightarrow> map f xs ! a \<noteq> map f xs ! b"
    by (simp only: distinct_conv_nth)
  with assms(1,2) have "map f xs ! i \<noteq> map f xs ! j" by simp
  with assms show False by simp
qed

lemma fixed_collision:
  assumes inv: "script_inv l nm st" and k: "2 \<le> k" "k < nodeIndex st"
    and arr: "arr = scriptArray st @ fixedRecords"
    and j: "j < 4" "get_prop (fixedRecords ! j) ''id'' = Some (JString (nodeId k))"
  shows "get_prop (arr ! k) ''id'' = Some (JString (nodeId k))"
    and "arr ! (nodeIndex st + j) = fixedRecords ! j"
    and "k < nodeIndex st + j \<and> nodeIndex st + j < length arr"
    and "\<not> distinct (map (\<lambda>r. get_prop r ''id'') arr)"
proof -
  have len: "length (scriptArray st) = nodeIndex st"
    using inv by (simp add: script_inv_def)
  have lf: "length fixedRecords = 4" by (simp add: fixedRecords_def)
  show a: "get_prop (arr ! k) ''id'' = Some (JString (nodeId k))"
    using script_inv_id(1)[OF inv k] k len by (simp add: arr nth_append)
  show b: "arr ! (nodeIndex st + j) = fixedRecords ! j"
    using len by (simp add: arr nth_append)
  show c: "k < nodeIndex st + j \<and> nodeIndex st + j < length arr"
    using k j len lf by (simp add: arr)
  from a b j have "get_prop (arr ! k) ''id'' = get_prop (arr ! (nodeIndex st + j)) ''id''"
    by simp
  with c show "\<not> distinct (map (\<lambda>r. get_prop r ''id'') arr)"
    by (intro dup_not_distinct[of k "nodeIndex st + j"]) simp_all
qed

lemma get_prop_convert_text [simp]:
  "get_prop (convertToCommboxNode l h i p) ''text''
     = Some (JString (or_else (n_value h) (ascii ''Node '' @ decimal i)))"
  by (simp add: convertToCommboxNode_def base_record_def Let_def split: node_type.split)

lemma starts_with_refl [simp]: "starts_with s s"
  by (induction s) simp_all

lemma js_includes_refl [simp]: "js_includes s s"
  by (cases s) simp_all

lemma convert_not_config: "convertToCommboxNode l h i p \<noteq> configRecord"
proof
  assume "convertToCommboxNode l h i p = configRecord"
  then have "get_prop (convertToCommboxNode l h i p) ''id'' = get_prop configRecord ''id''"
    by simp
  then show False by (simp add: configRecord_def)
qed

lemma convert_not_root: "convertToCommboxNode l h i p \<noteq> rootRecord"
proof
  assume "convertToCommboxNode l h i p = rootRecord"
  then have "get_prop (convertToCommboxNode l h i p) ''id'' = get_prop rootRecord ''id''"
    by simp
  then show False by (simp add: rootRecord_def nodeId_def ascii_def)
qed

lemma convert_not_group: "convertToCommboxNode l h i p \<noteq> groupRecord"
proof
  assume "convertToCommboxNode l h i p = groupRecord"
  then have "get_prop (convertToCommboxNode l h i p) ''buttonDisplayMode''
      = get_prop groupRecord ''buttonDisplayMode''"
    by simp
  then show False by (simp add: groupRecord_def)
qed

lemma convert_not_error: "convertToCommboxNode l h i p \<noteq> errorRecord"
proof
  assume "convertToCommboxNode l h i p = errorRecord"
  then have "get_prop (convertToCommboxNode l h i p) ''attachments''
      = get_prop errorRecord ''attachments''"
    by simp
  then show False by (simp add: errorRecord_def)
qed

lemma convert_not_unknown: "convertToCommboxNode l h i p \<noteq> unknownRecord"
proof
  assume "convertToCommboxNode l h i p = unknownRecord"
  then have "get_prop (convertToCommboxNode l h i p) ''attachments''
      = get_prop unknownRecord ''attachments''"
    by simp
  then show False by (simp add: unknownRecord_def)
qed

lemma convert_transfer_step:
  "detectNodeType l h = Transfer \<Longrightarrow>
     get_prop (convertToCommboxNode l h i p) ''step'' = Some (JString (ascii ''agent_node''))"
  by (simp add: convertToCommboxNode_def base_record_def)

lemma convert_not_transfer:
  assumes l: "l kw_transfer_he = kw_transfer_he"
  shows "convertToCommboxNode l h i p \<noteq> transferRecord"
proof
  assume eq: "convertToCommboxNode l h i p = transferRecord"
  then have "get_prop (convertToCommboxNode l h i p) ''text'' = get_prop transferRecord ''text''"
    by simp
  then have "or_else (n_value h) (ascii ''Node '' @ decimal i) = kw_transfer_he"
    by (simp add: transferRecord_def kw_transfer_he_def)
  then have "n_value h = kw_transfer_he"
    by (auto simp: or_else_def ascii_def kw_transfer_he_def split: if_splits)
  with l have "detectNodeType l h = Transfer"
    by (simp add: detectNodeType_def)
  from convert_transfer_step[OF this, of i p] eq show False
    by (simp add: transferRecord_def)
qed

lemma script_inv_recs:
  assumes inv: "script_inv l nm st" and r: "r \<in> set (drop 2 (scriptArray st))"
  shows "\<exists>(h::hnode) i p. r = convertToCommboxNode l h i p"
proof -
  from r obtain k where k: "k < length (scriptArray st) - 2" "r = scriptArray st ! (2 + k)"
    by (auto simp: in_set_conv_nth)
  with inv have "2 \<le> 2 + k \<and> 2 + k < nodeIndex st"
    by (simp add: script_inv_def)
  with inv obtain h :: hnode and p where "scriptArray st ! (2 + k) = convertToCommboxNode l h (2 + k) p"
    unfolding script_inv_def by blast
  with k show ?thesis by blast
qed

lemma script_inv_split:
  assumes inv: "script_inv l nm st"
  shows "scriptArray st = [configRecord, rootRecord] @ drop 2 (scriptArray st)"
proof -
  from inv have "take 2 (scriptArray st) = [configRecord, rootRecord]"
    by (simp add: script_inv_def)
  then show ?thesis by (metis append_take_drop_id)
qed

lemma count_list_notin: "x \<notin> set xs \<Longrightarrow> count_list xs x = 0"
  by (induction xs) auto

text \<open>
  Claim C2. Whatever the nodes and edges are, the array is the configuration record,
  the synthetic root record, one record per emitted diagram node, then the grouping
  record and the three standing-process records (transfer, error, unknown); and each
  of these six fixed records occurs exactly once in the array. The hypothesis says that
  \<open>toLowerCase\<close> leaves the Hebrew transfer phrase unchanged (Hebrew letters have no
  case); it excludes a diagram record equal to the fixed transfer record.
\<close>

theorem fixed_boilerplate:
  assumes l: "toLowerCase kw_transfer_he = kw_transfer_he"
  shows "\<exists>recs. buildScriptArray toLowerCase nodes connections
            = [configRecord, rootRecord] @ recs
                @ [groupRecord, transferRecord, errorRecord, unknownRecord]
          \<and> length recs = length (processedNodes (traverse toLowerCase nodes connections))
          \<and> count_list (buildScriptArray toLowerCase nodes connections) configRecord = 1
          \<and> count_list (buildScriptArray toLowerCase nodes connections) rootRecord = 1
          \<and> count_list (buildScriptArray toLowerCase nodes connections) groupRecord = 1
          \<and> count_list (buildScriptArray toLowerCase nodes connections) transferRecord = 1
          \<and> count_list (buildScriptArray toLowerCase nodes connections) errorRecord = 1
          \<and> count_list (buildScriptArray toLowerCase nodes connections) unknownRecord = 1"
proof -
  let ?nm = "fst (buildHierarchy nodes connections)"
  let ?st = "traverse toLowerCase nodes connections"
  let ?recs = "drop 2 (scriptArray ?st)"
  have inv: "script_inv toLowerCase ?nm ?st" by (rule traverse_inv)
  have arr: "buildScriptArray toLowerCase nodes connections
      = [configRecord, rootRecord] @ ?recs @ [groupRecord, transferRecord, errorRecord, unknownRecord]"
    using script_inv_split[OF inv] by (simp add: buildScriptArray_def)
  have len: "length ?recs = length (processedNodes ?st)"
    using inv by (auto simp: script_inv_def)
  have notin: "configRecord \<notin> set ?recs" "rootRecord \<notin> set ?recs" "groupRecord \<notin> set ?recs"
    "transferRecord \<notin> set ?recs" "errorRecord \<notin> set ?recs" "unknownRecord \<notin> set ?recs"
    using script_inv_recs[OF inv] convert_not_config convert_not_root convert_not_group
      convert_not_transfer[where l=toLowerCase, OF l] convert_not_error convert_not_unknown
    by metis+
  have fixed_ne: "configRecord \<noteq> rootRecord" "configRecord \<noteq> groupRecord"
    "configRecord \<noteq> transferRecord" "configRecord \<noteq> errorRecord" "configRecord \<noteq> unknownRecord"
    "rootRecord \<noteq> groupRecord" "rootRecord \<noteq> transferRecord" "rootRecord \<noteq> errorRecord"
    "rootRecord \<noteq> unknownRecord" "groupRecord \<noteq> transferRecord" "groupRecord \<noteq> errorRecord"
    "groupRecord \<noteq> unknownRecord" "transferRecord \<noteq> errorRecord"
    "transferRecord \<noteq> unknownRecord" "errorRecord \<noteq> unknownRecord"
    by (simp_all add: configRecord_def rootRecord_def groupRecord_def transferRecord_def
        errorRecord_def unknownRecord_def)
  have counts: "count_list (buildScriptArray toLowerCase nodes connections) configRecord = 1"
    "count_list (buildScriptArray toLowerCase nodes connections) rootRecord = 1"
    "count_list (buildScriptArray toLowerCase nodes connections) groupRecord = 1"
    "count_list (buildScriptArray toLowerCase nodes connections) transferRecord = 1"
    "count_list (buildScriptArray toLowerCase nodes connections) errorRecord = 1"
    "count_list (buildScriptArray toLowerCase nodes connections) unknownRecord = 1"
    unfolding arr using notin fixed_ne fixed_ne[symmetric]
    by (simp_all add: count_list_notin)
  from arr len counts show ?thesis by blast
qed

lemma script_inv_len:
  assumes "script_inv l nm st"
  shows "length (scriptArray st) = length (processedNodes st) + 2"
    and "nodeIndex st = length (processedNodes st) + 2"
  using assms by (auto simp: script_inv_def)

text \<open>
  Claim C3. \<open>processNode\<close> and \<open>processChildren\<close> are total functions (their
  termination is proved above for every node map, also one whose child lists form a
  cycle), so the traversal returns for every input. In the state it returns, the ids of
  the emitted diagram nodes are pairwise different: no node is emitted twice, however
  many child lists name it. The record at position \<open>k + 2\<close> of the array is the record of
  the \<open>k\<close>-th emitted node, a node of the node map stored under its own id, and its id is
  \<open>n_\<close> followed by \<open>k + 2\<close>: the ids are sequential and start at 2.
\<close>

theorem emitted_once_sequential:
  "distinct (processedNodes (traverse l nodes connections))
   \<and> length (scriptArray (traverse l nodes connections))
       = length (processedNodes (traverse l nodes connections)) + 2
   \<and> (\<forall>k. k < length (processedNodes (traverse l nodes connections)) \<longrightarrow>
         (\<exists>h p. scriptArray (traverse l nodes connections) ! (k + 2)
                  = convertToCommboxNode l h (k + 2) p
               \<and> map_of (fst (buildHierarchy nodes connections)) (n_id h) = Some h
               \<and> n_id h = processedNodes (traverse l nodes connections) ! k)
         \<and> get_prop (scriptArray (traverse l nodes connections) ! (k + 2)) ''id''
             = Some (JString (ascii ''n_'' @ decimal (k + 2))))"
proof (intro conjI allI impI)
  let ?st = "traverse l nodes connections"
  let ?nm = "fst (buildHierarchy nodes connections)"
  have inv: "script_inv l ?nm ?st" by (rule traverse_inv)
  show "distinct (processedNodes ?st)" using inv by (simp add: script_inv_def)
  show "length (scriptArray ?st) = length (processedNodes ?st) + 2"
    by (rule script_inv_len(1)[OF inv])
  fix k assume k: "k < length (processedNodes ?st)"
  then have r: "2 \<le> k + 2 \<and> k + 2 < nodeIndex ?st"
    using script_inv_len(2)[OF inv] by simp
  with inv obtain h :: hnode and p where
    "scriptArray ?st ! (k + 2) = convertToCommboxNode l h (k + 2) p"
    "map_of ?nm (n_id h) = Some h" "n_id h = processedNodes ?st ! (k + 2 - 2)"
    unfolding script_inv_def by blast
  then show "\<exists>h p. scriptArray ?st ! (k + 2) = convertToCommboxNode l h (k + 2) p
               \<and> map_of ?nm (n_id h) = Some h \<and> n_id h = processedNodes ?st ! k"
    by auto
  from script_inv_id(1)[OF inv, of "k + 2"] r
  show "get_prop (scriptArray ?st ! (k + 2)) ''id'' = Some (JString (ascii ''n_'' @ decimal (k + 2)))"
    by (simp add: nodeId_def)
qed

theorem emitted_once_sequential_witness:
  "processedNodes (traverse toLowerCase_ascii cyclic_nodes cyclic_edges)
     = [Some (ascii ''r''), Some (ascii ''a''), Some (ascii ''b'')]
   \<and> (1::nat) < length (processedNodes (traverse toLowerCase_ascii cyclic_nodes cyclic_edges))
   \<and> get_prop (scriptArray (traverse toLowerCase_ascii cyclic_nodes cyclic_edges) ! 3) ''id''
       = Some (JString (ascii ''n_3''))"
proof -
  have p: "processedNodes (traverse toLowerCase_ascii cyclic_nodes cyclic_edges)
     = [Some (ascii ''r''), Some (ascii ''a''), Some (ascii ''b'')]"
    by code_simp
  then have k: "(1::nat) < length (processedNodes (traverse toLowerCase_ascii cyclic_nodes cyclic_edges))"
    by simp
  from emitted_once_sequential [of toLowerCase_ascii cyclic_nodes cyclic_edges] k
  have "get_prop (scriptArray (traverse toLowerCase_ascii cyclic_nodes cyclic_edges) ! (1 + 2)) ''id''
       = Some (JString (ascii ''n_'' @ decimal (1 + 2)))"
    by blast
  moreover have "ascii ''n_'' @ decimal (1 + 2) = ascii ''n_3''"
    by (simp add: decimal.simps digit_def ascii_def)
  ultimately show ?thesis using p k by (simp add: numeral_3_eq_3)
qed

lemma has_id_nth:
  assumes "has_id (take i arr) p"
  shows "\<exists>j<i. get_prop (arr ! j) ''id'' = Some (JString p)"
proof -
  from assms obtain j where "j < length (take i arr)"
    "get_prop (take i arr ! j) ''id'' = Some (JString p)"
    unfolding has_id_def by blast
  then have "j < i \<and> get_prop (arr ! j) ''id'' = Some (JString p)" by simp
  then show ?thesis by blast
qed

text \<open>
  Claim C1. In the array that is serialised, entry 0 is the configuration header, which
  has no \<open>parent\<close> field. Every other entry has a \<open>parent\<close> field, and its value is
  either the root sentinel \<open>#\<close> or the \<open>id\<close> of an entry at a smaller index: no parent
  refers to an id that occurs only later or not at all.
\<close>

theorem parent_precedes_children:
  "buildScriptArray l nodes connections ! 0 = configRecord
   \<and> get_prop configRecord ''parent'' = None
   \<and> (\<forall>i. 1 \<le> i \<and> i < length (buildScriptArray l nodes connections) \<longrightarrow>
         (\<exists>p. get_prop (buildScriptArray l nodes connections ! i) ''parent'' = Some (JString p)
             \<and> (p = ascii ''#''
                 \<or> (\<exists>j<i. get_prop (buildScriptArray l nodes connections ! j) ''id''
                            = Some (JString p)))))"
proof (intro conjI allI impI)
  let ?st = "traverse l nodes connections"
  let ?nm = "fst (buildHierarchy nodes connections)"
  let ?arr = "buildScriptArray l nodes connections"
  let ?m = "length (processedNodes ?st)"
  have inv: "script_inv l ?nm ?st" by (rule traverse_inv)
  note len = script_inv_len[OF inv]
  have arr: "?arr = scriptArray ?st @ fixedRecords"
    by (simp add: buildScriptArray_def fixedRecords_def)
  have split: "scriptArray ?st = [configRecord, rootRecord] @ drop 2 (scriptArray ?st)"
    by (rule script_inv_split[OF inv])
  have a0: "scriptArray ?st ! 0 = configRecord" and a1: "scriptArray ?st ! 1 = rootRecord"
    by (subst split, simp)+
  show "?arr ! 0 = configRecord"
    using a0 len by (simp add: arr nth_append)
  show "get_prop configRecord ''parent'' = None"
    by (simp add: configRecord_def)
  fix i assume i: "1 \<le> i \<and> i < length ?arr"
  have old: "?arr ! j = scriptArray ?st ! j" if "j < ?m + 2" for j
    using that len by (simp add: arr nth_append)
  have fixed: "?arr ! (?m + 2) = groupRecord" "?arr ! (?m + 3) = transferRecord"
    "?arr ! (?m + 4) = errorRecord" "?arr ! (?m + 5) = unknownRecord"
    using len by (simp_all add: arr nth_append fixedRecords_def)
  have la: "length ?arr = ?m + 6"
    using len by (simp add: arr fixedRecords_def)
  have id_root: "get_prop (?arr ! 1) ''id'' = Some (JString (ascii ''node_0''))"
    using old[of 1] a1 by (simp add: rootRecord_def)
  have id_group: "get_prop (?arr ! (?m + 2)) ''id'' = Some (JString (ascii ''n_3''))"
    unfolding fixed by (simp add: groupRecord_def)
  consider "i = 1" | "2 \<le> i \<and> i < ?m + 2" | "i = ?m + 2" | "i = ?m + 3" | "i = ?m + 4" | "i = ?m + 5"
    using i la by linarith
  then show "\<exists>p. get_prop (?arr ! i) ''parent'' = Some (JString p)
             \<and> (p = ascii ''#'' \<or> (\<exists>j<i. get_prop (?arr ! j) ''id'' = Some (JString p)))"
  proof cases
    case 1
    with old[of 1] a1 show ?thesis by (simp add: rootRecord_def)
  next
    case 2
    with inv len obtain h :: hnode and p where
      r: "scriptArray ?st ! i = convertToCommboxNode l h i p" "has_id (take i (scriptArray ?st)) p"
      unfolding script_inv_def by (metis (no_types, lifting))
    from has_id_nth[OF r(2)] obtain j where j: "j < i"
      "get_prop (scriptArray ?st ! j) ''id'' = Some (JString p)" by blast
    with 2 old[of j] have "get_prop (?arr ! j) ''id'' = Some (JString p)" by simp
    with j(1) have "\<exists>j<i. get_prop (?arr ! j) ''id'' = Some (JString p)" by blast
    moreover from 2 old[of i] r(1) have "get_prop (?arr ! i) ''parent'' = Some (JString p)"
      by simp
    ultimately show ?thesis by blast
  next
    case 3
    have "get_prop (?arr ! (?m + 2)) ''parent'' = Some (JString (ascii ''node_0''))"
      unfolding fixed by (simp add: groupRecord_def)
    moreover have "1 < ?m + 2" by simp
    ultimately show ?thesis using id_root 3 by blast
  next
    case 4
    have "get_prop (?arr ! (?m + 3)) ''parent'' = Some (JString (ascii ''n_3''))"
      unfolding fixed by (simp add: transferRecord_def)
    moreover have "?m + 2 < ?m + 3" by simp
    ultimately show ?thesis using id_group 4 by blast
  next
    case 5
    have "get_prop (?arr ! (?m + 4)) ''parent'' = Some (JString (ascii ''n_3''))"
      unfolding fixed by (simp add: errorRecord_def)
    moreover have "?m + 2 < ?m + 4" by simp
    ultimately show ?thesis using id_group 5 by blast
  next
    case 6
    have "get_prop (?arr ! (?m + 5)) ''parent'' = Some (JString (ascii ''n_3''))"
      unfolding fixed by (simp add: unknownRecord_def)
    moreover have "?m + 2 < ?m + 5" by simp
    ultimately show ?thesis using id_group 6 by blast
  qed
qed

lemma script_inv_nth:
  assumes "script_inv l nm st" "2 \<le> k" "k < nodeIndex st"
  shows "\<exists>(h::hnode) p. scriptArray st ! k = convertToCommboxNode l h k p"
  using assms unfolding script_inv_def by blast

text \<open>
  Claim C10. The second emitted diagram node sits at index 3 and has id \<open>n_3\<close>, which is
  also the id of the grouping record appended after the \<open>m\<close> emitted nodes, a different
  record at a later index: with two emitted nodes or more the ids of the array are not
  pairwise distinct. In the same way the diagram records with the sequential ids
  \<open>n_10\<close>, \<open>n_11\<close> and \<open>n_12\<close>, present from nine, ten and eleven emitted nodes on, share
  their id with the fixed transfer, error and unknown record.
\<close>

theorem record_ids_collide:
  "let arr = buildScriptArray l nodes connections;
       m = length (processedNodes (traverse l nodes connections));
       rid = (\<lambda>r. get_prop r ''id'')
   in (2 \<le> m \<longrightarrow>
         rid (arr ! 3) = Some (JString (ascii ''n_3'')) \<and> arr ! (m + 2) = groupRecord
         \<and> rid groupRecord = Some (JString (ascii ''n_3''))
         \<and> 3 < m + 2 \<and> m + 2 < length arr \<and> arr ! 3 \<noteq> groupRecord
         \<and> \<not> distinct (map rid arr))
    \<and> (9 \<le> m \<longrightarrow>
         rid (arr ! 10) = Some (JString (ascii ''n_10'')) \<and> arr ! (m + 3) = transferRecord
         \<and> rid transferRecord = Some (JString (ascii ''n_10''))
         \<and> 10 < m + 3 \<and> m + 3 < length arr)
    \<and> (10 \<le> m \<longrightarrow>
         rid (arr ! 11) = Some (JString (ascii ''n_11'')) \<and> arr ! (m + 4) = errorRecord
         \<and> rid errorRecord = Some (JString (ascii ''n_11''))
         \<and> 11 < m + 4 \<and> m + 4 < length arr \<and> arr ! 11 \<noteq> errorRecord)
    \<and> (11 \<le> m \<longrightarrow>
         rid (arr ! 12) = Some (JString (ascii ''n_12'')) \<and> arr ! (m + 5) = unknownRecord
         \<and> rid unknownRecord = Some (JString (ascii ''n_12''))
         \<and> 12 < m + 5 \<and> m + 5 < length arr \<and> arr ! 12 \<noteq> unknownRecord)"
proof -
  let ?st = "traverse l nodes connections"
  let ?nm = "fst (buildHierarchy nodes connections)"
  let ?arr = "buildScriptArray l nodes connections"
  let ?m = "length (processedNodes ?st)"
  let ?rid = "\<lambda>r. get_prop r ''id''"
  have inv: "script_inv l ?nm ?st" by (rule traverse_inv)
  note len = script_inv_len[OF inv]
  have arr: "?arr = scriptArray ?st @ fixedRecords"
    by (simp add: buildScriptArray_def fixedRecords_def)
  have la: "length ?arr = ?m + 6"
    using len by (simp add: arr fixedRecords_def)
  have fixed: "?arr ! (?m + 2) = groupRecord" "?arr ! (?m + 3) = transferRecord"
    "?arr ! (?m + 4) = errorRecord" "?arr ! (?m + 5) = unknownRecord"
    using len by (simp_all add: arr nth_append fixedRecords_def)
  have ids: "?rid groupRecord = Some (JString (ascii ''n_3''))"
    "?rid transferRecord = Some (JString (ascii ''n_10''))"
    "?rid errorRecord = Some (JString (ascii ''n_11''))"
    "?rid unknownRecord = Some (JString (ascii ''n_12''))"
    by (simp_all add: groupRecord_def transferRecord_def errorRecord_def unknownRecord_def)
  have emitted: "?rid (?arr ! k) = Some (JString (nodeId k))
      \<and> (\<exists>(h::hnode) p. ?arr ! k = convertToCommboxNode l h k p)"
    if "2 \<le> k" "k < ?m + 2" for k
  proof -
    from that len have "?arr ! k = scriptArray ?st ! k" by (simp add: arr nth_append)
    with script_inv_id(1)[OF inv, of k] script_inv_nth[OF inv, of k] that len
    show ?thesis by simp
  qed
  have p3: "?rid (?arr ! 3) = Some (JString (ascii ''n_3'')) \<and> ?arr ! (?m + 2) = groupRecord
         \<and> ?rid groupRecord = Some (JString (ascii ''n_3''))
         \<and> 3 < ?m + 2 \<and> ?m + 2 < length ?arr \<and> ?arr ! 3 \<noteq> groupRecord
         \<and> \<not> distinct (map ?rid ?arr)" if m: "2 \<le> ?m"
  proof -
    from emitted[of 3] m have e: "?rid (?arr ! 3) = Some (JString (ascii ''n_3''))"
      and c: "\<exists>(h::hnode) p. ?arr ! 3 = convertToCommboxNode l h 3 p"
      by (simp_all add: nodeId_3)
    from c have ne: "?arr ! 3 \<noteq> groupRecord" by (metis convert_not_group)
    have "?rid (?arr ! 3) = ?rid (?arr ! (?m + 2))" using e ids fixed by simp
    with m la have "\<not> distinct (map ?rid ?arr)"
      by (intro dup_not_distinct[of 3 "?m + 2"]) simp_all
    with e fixed ids ne m la show ?thesis by simp
  qed
  have p10: "?rid (?arr ! 10) = Some (JString (ascii ''n_10'')) \<and> ?arr ! (?m + 3) = transferRecord
         \<and> ?rid transferRecord = Some (JString (ascii ''n_10''))
         \<and> 10 < ?m + 3 \<and> ?m + 3 < length ?arr" if m: "9 \<le> ?m"
    using emitted[of 10] m fixed ids la by (simp add: nodeId_10)
  have p11: "?rid (?arr ! 11) = Some (JString (ascii ''n_11'')) \<and> ?arr ! (?m + 4) = errorRecord
         \<and> ?rid errorRecord = Some (JString (ascii ''n_11''))
         \<and> 11 < ?m + 4 \<and> ?m + 4 < length ?arr \<and> ?arr ! 11 \<noteq> errorRecord" if m: "10 \<le> ?m"
  proof -
    from emitted[of 11] m have e: "?rid (?arr ! 11) = Some (JString (ascii ''n_11''))"
      and c: "\<exists>(h::hnode) p. ?arr ! 11 = convertToCommboxNode l h 11 p"
      by (simp_all add: nodeId_11)
    from c have "?arr ! 11 \<noteq> errorRecord" by (metis convert_not_error)
    with e fixed ids m la show ?thesis by simp
  qed
  have p12: "?rid (?arr ! 12) = Some (JString (ascii ''n_12'')) \<and> ?arr ! (?m + 5) = unknownRecord
         \<and> ?rid unknownRecord = Some (JString (ascii ''n_12''))
         \<and> 12 < ?m + 5 \<and> ?m + 5 < length ?arr \<and> ?arr ! 12 \<noteq> unknownRecord" if m: "11 \<le> ?m"
  proof -
    from emitted[of 12] m have e: "?rid (?arr ! 12) = Some (JString (ascii ''n_12''))"
      and c: "\<exists>(h::hnode) p. ?arr ! 12 = convertToCommboxNode l h 12 p"
      by (simp_all add: nodeId_12)
    from c have "?arr ! 12 \<noteq> unknownRecord" by (metis convert_not_unknown)
    with e fixed ids m la show ?thesis by simp
  qed
  from p3 p10 p11 p12 show ?thesis
    unfolding Let_def by blast
qed

theorem record_ids_collide_witness:
  "length (processedNodes (traverse toLowerCase_ascii eleven_nodes [])) = 11
   \<and> \<not> distinct (map (\<lambda>r. get_prop r ''id'') (buildScriptArray toLowerCase_ascii eleven_nodes []))
   \<and> get_prop (buildScriptArray toLowerCase_ascii eleven_nodes [] ! 3) ''id''
       = get_prop groupRecord ''id''
   \<and> get_prop (buildScriptArray toLowerCase_ascii eleven_nodes [] ! 10) ''id''
       = get_prop transferRecord ''id''
   \<and> get_prop (buildScriptArray toLowerCase_ascii eleven_nodes [] ! 11) ''id''
       = get_prop errorRecord ''id''
   \<and> get_prop (buildScriptArray toLowerCase_ascii eleven_nodes [] ! 12) ''id''
       = get_prop unknownRecord ''id''"
proof -
  have m: "length (processedNodes (traverse toLowerCase_ascii eleven_nodes [])) = 11"
    by code_simp
  from record_ids_collide [of toLowerCase_ascii eleven_nodes "[]"] m show ?thesis
    unfolding Let_def by simp
qed

theorem parent_precedes_children_witness:
  "(1::nat) \<le> 3 \<and> 3 < length (buildScriptArray toLowerCase_ascii cyclic_nodes cyclic_edges)
   \<and> get_prop (buildScriptArray toLowerCase_ascii cyclic_nodes cyclic_edges ! 3) ''parent''
       = Some (JString (ascii ''n_2''))
   \<and> (\<exists>j<3. get_prop (buildScriptArray toLowerCase_ascii cyclic_nodes cyclic_edges ! j) ''id''
               = Some (JString (ascii ''n_2'')))"
proof -
  have i: "(1::nat) \<le> 3 \<and> 3 < length (buildScriptArray toLowerCase_ascii cyclic_nodes cyclic_edges)"
    by code_simp
  have p: "get_prop (buildScriptArray toLowerCase_ascii cyclic_nodes cyclic_edges ! 3) ''parent''
       = Some (JString (ascii ''n_2''))"
    by code_simp
  have "ascii ''n_2'' \<noteq> ascii ''#''" by (simp add: ascii_def)
  with parent_precedes_children [of toLowerCase_ascii cyclic_nodes cyclic_edges] i p
  have "\<exists>j<3. get_prop (buildScriptArray toLowerCase_ascii cyclic_nodes cyclic_edges ! j) ''id''
               = Some (JString (ascii ''n_2''))"
    by (metis option.inject json.inject(1))
  with i p show ?thesis by simp
qed

theorem fixed_boilerplate_witness:
  "toLowerCase_ascii kw_transfer_he = kw_transfer_he
   \<and> count_list (buildScriptArray toLowerCase_ascii cyclic_nodes cyclic_edges) groupRecord = 1
   \<and> count_list (buildScriptArray toLowerCase_ascii cyclic_nodes cyclic_edges) transferRecord = 1
   \<and> buildScriptArray toLowerCase_ascii cyclic_nodes cyclic_edges ! 0 = configRecord"
proof -
  have l: "toLowerCase_ascii kw_transfer_he = kw_transfer_he"
    by code_simp
  from fixed_boilerplate [of toLowerCase_ascii cyclic_nodes cyclic_edges, OF l]
  have "count_list (buildScriptArray toLowerCase_ascii cyclic_nodes cyclic_edges) groupRecord = 1"
    and "count_list (buildScriptArray toLowerCase_ascii cyclic_nodes cyclic_edges) transferRecord = 1"
    and "\<exists>recs. buildScriptArray toLowerCase_ascii cyclic_nodes cyclic_edges
            = [configRecord, rootRecord] @ recs
                @ [groupRecord, transferRecord, errorRecord, unknownRecord]"
    by blast+
  with l show ?thesis by auto
qed

section \<open>Escaping, decoding and the endpoint\<close>

lemma replace_all_Nil [simp]: "replace_all c r [] = []"
  by (simp add: replace_all_def)

lemma replace_all_Cons [simp]:
  "replace_all c r (x # s) = (if x = c then r else [x]) @ replace_all c r s"
  by (simp add: replace_all_def)

lemma replace_all_append [simp]:
  "replace_all c r (a @ b) = replace_all c r a @ replace_all c r b"
  by (simp add: replace_all_def)

lemma escapeXml_Nil [simp]: "escapeXml [] = []"
  by (simp add: escapeXml_def)

lemma escapeXml_Cons: "escapeXml (x # s) = escape_unit x @ escapeXml s"
  by (simp add: escapeXml_def escape_unit_def ascii_def)

lemma escapeXml_concat: "escapeXml s = concat (map escape_unit s)"
  by (induction s) (simp_all add: escapeXml_Cons)

lemma escaped_ok_unit: "escaped_ok rest \<Longrightarrow> escaped_ok (escape_unit x @ rest)"
  by (simp add: escape_unit_def ascii_def entity_names_def)

lemma escaped_ok_escapeXml: "escaped_ok (escapeXml s)"
  by (induction s) (simp_all add: escapeXml_Cons escaped_ok_unit)

lemma escaped_ok_no_markup:
  "escaped_ok s \<Longrightarrow> 0x3C \<notin> set s \<and> 0x3E \<notin> set s \<and> 0x22 \<notin> set s \<and> 0x27 \<notin> set s"
  by (induction s) auto

text \<open>
  Claim C5. The code at a diagram whose node \<open>a\<close> has no inbound edge and the containment
  attribute \<open>grp\<close>: both cells are extracted as nodes, there is no edge, and only \<open>grp\<close> is
  a forest root. The node \<open>a\<close> keeps its containment attribute as parent, is not a root,
  and is never emitted.
\<close>

theorem contained_node_dropped:
  "map n_id (extractNodes container_model) = [Some (ascii ''grp''), Some (ascii ''a'')]
   \<and> extractConnections container_model = []
   \<and> map n_id (snd (buildHierarchy (extractNodes container_model)
                       (extractConnections container_model))) = [Some (ascii ''grp'')]
   \<and> processedNodes (traverse toLowerCase_ascii (extractNodes container_model)
                        (extractConnections container_model)) = [Some (ascii ''grp'')]"
  by code_simp

text \<open>
  Claim C6. For every record list the payload, the escaped JSON text, contains none of
  \<open><\<close>, \<open>>\<close>, \<open>"\<close> and \<open>'\<close>, and every \<open>&\<close> in it starts one of the entities \<open>&amp;\<close>,
  \<open>&lt;\<close>, \<open>&gt;\<close>, \<open>&quot;\<close>, \<open>&apos;\<close>: it is the JSON text with each code unit replaced
  by its escape. This payload, for the script array, is what the envelope holds between
  the quotes of its \<open>Value\<close> attribute.
\<close>

theorem escaped_payload:
  "escaped_ok (escapeXml (JSON_stringify (JArray records)))
   \<and> 0x3C \<notin> set (escapeXml (JSON_stringify (JArray records)))
   \<and> 0x3E \<notin> set (escapeXml (JSON_stringify (JArray records)))
   \<and> 0x22 \<notin> set (escapeXml (JSON_stringify (JArray records)))
   \<and> 0x27 \<notin> set (escapeXml (JSON_stringify (JArray records)))
   \<and> escapeXml (JSON_stringify (JArray records))
       = concat (map escape_unit (JSON_stringify (JArray records)))
   \<and> escapedValue toLowerCase nodes connections
       = escapeXml (JSON_stringify (JArray (buildScriptArray toLowerCase nodes connections)))
   \<and> (\<exists>pre post. generateCommboxXML toLowerCase ts now nodes connections
          = pre @ [0x22] @ escapedValue toLowerCase nodes connections @ [0x22] @ post)"
proof (intro conjI)
  show "escaped_ok (escapeXml (JSON_stringify (JArray records)))"
    by (rule escaped_ok_escapeXml)
  from escaped_ok_no_markup[OF this]
  show "0x3C \<notin> set (escapeXml (JSON_stringify (JArray records)))"
    "0x3E \<notin> set (escapeXml (JSON_stringify (JArray records)))"
    "0x22 \<notin> set (escapeXml (JSON_stringify (JArray records)))"
    "0x27 \<notin> set (escapeXml (JSON_stringify (JArray records)))"
    by simp_all
  show "escapeXml (JSON_stringify (JArray records))
       = concat (map escape_unit (JSON_stringify (JArray records)))"
    by (rule escapeXml_concat)
  show "escapedValue toLowerCase nodes connections
       = escapeXml (JSON_stringify (JArray (buildScriptArray toLowerCase nodes connections)))"
    by (simp add: escapedValue_def)
  show "\<exists>pre post. generateCommboxXML toLowerCase ts now nodes connections
          = pre @ [0x22] @ escapedValue toLowerCase nodes connections @ [0x22] @ post"
    unfolding generateCommboxXML_def dq_def
    by (metis append.assoc)
qed



lemma decodeDrawio_ok:
  "inflateRaw p (bufferFromBase64 p (trim s)) = Inr r \<Longrightarrow>
     decodeURIComponent p (js_to_string r) = Inr u \<Longrightarrow>
     decodeDrawio p s = Inr u"
  by (simp add: decodeDrawio_def)

















text \<open>
  Claim C8, as stated, at the payloads \<open>!////\<close> (malformed base64) and \<open>////\<close> (well-formed
  base64 of bytes that are no deflate stream): the decompressor of the specification
  fails with \<open>InvalidBase64\<close> on the first and with \<open>InflateFailure\<close> on the second, the
  code fails with the same error on both.
\<close>

theorem decode_failures_not_distinguished:
  "decompress_spec example_platform (ascii ''!////'') = Inl InvalidBase64
   \<and> decompress_spec example_platform (ascii ''////'') = Inl InflateFailure
   \<and> decodeDrawio example_platform (ascii ''!////'')
       = Inl (Thrown (ascii ''Failed to decompress Draw.io file''))
   \<and> decodeDrawio example_platform (ascii ''////'')
       = Inl (Thrown (ascii ''Failed to decompress Draw.io file''))"
  by code_simp

text \<open>
  Claim C8, amended. The first step trims the payload and decodes it as base64 to bytes
  without a failure of its own. \<open>decodeDrawio\<close> fails exactly when the inflater or the
  percent-decoder rejects its input, and then with the one error
  \<open>Failed to decompress Draw.io file\<close>, whichever of the two failed; otherwise it returns
  the percent-decoded text.
\<close>

theorem decodeDrawio_single_failure:
  "(decodeDrawio p s = Inl err \<longrightarrow>
      err = Thrown (ascii ''Failed to decompress Draw.io file'')
      \<and> ((\<exists>e. inflateRaw p (bufferFromBase64 p (trim s)) = Inl e)
         \<or> (\<exists>r e. inflateRaw p (bufferFromBase64 p (trim s)) = Inr r
                  \<and> decodeURIComponent p (js_to_string r) = Inl e)))
   \<and> (inflateRaw p (bufferFromBase64 p (trim s)) = Inl e \<longrightarrow>
        decodeDrawio p s = Inl (Thrown (ascii ''Failed to decompress Draw.io file'')))
   \<and> (inflateRaw p (bufferFromBase64 p (trim s)) = Inr r
        \<and> decodeURIComponent p (js_to_string r) = Inl e \<longrightarrow>
        decodeDrawio p s = Inl (Thrown (ascii ''Failed to decompress Draw.io file'')))
   \<and> (inflateRaw p (bufferFromBase64 p (trim s)) = Inr r
        \<and> decodeURIComponent p (js_to_string r) = Inr u \<longrightarrow>
        decodeDrawio p s = Inr u)"
  by (auto simp: decodeDrawio_def decompress_failure_def Let_def split: sum.splits)

theorem decodeDrawio_single_failure_witness:
  "inflateRaw example_platform (bufferFromBase64 example_platform (trim (ascii ''!////'')))
     = Inl (Thrown (ascii ''invalid block type''))
   \<and> decodeDrawio example_platform (ascii ''!////'')
       = Inl (Thrown (ascii ''Failed to decompress Draw.io file''))
   \<and> inflateRaw example_platform (bufferFromBase64 example_platform (trim (ascii ''UwUA'')))
       = Inr (Some (ascii ''%''))
   \<and> decodeURIComponent example_platform (ascii ''%'') = Inl (Thrown (ascii ''URI malformed''))
   \<and> decodeDrawio example_platform (ascii ''UwUA'')
       = Inl (Thrown (ascii ''Failed to decompress Draw.io file''))
   \<and> inflateRaw example_platform (bufferFromBase64 example_platform (trim example_payload))
       = Inr (Some example_encoded)
   \<and> decodeURIComponent example_platform example_encoded = Inr example_markup
   \<and> decodeDrawio example_platform example_payload = Inr example_markup"
proof -
  have 1: "inflateRaw example_platform (bufferFromBase64 example_platform (trim (ascii ''!////'')))
     = Inl (Thrown (ascii ''invalid block type''))"
    by code_simp
  have 2: "inflateRaw example_platform (bufferFromBase64 example_platform (trim example_payload))
       = Inr (Some example_encoded)"
    by code_simp
  have 3: "decodeURIComponent example_platform example_encoded = Inr example_markup"
    by code_simp
  have 4: "inflateRaw example_platform (bufferFromBase64 example_platform (trim (ascii ''UwUA'')))
       = Inr (Some (ascii ''%''))"
    by code_simp
  have 5: "decodeURIComponent example_platform (ascii ''%'') = Inl (Thrown (ascii ''URI malformed''))"
    by code_simp
  from decodeDrawio_single_failure [of example_platform "ascii ''!////''" _
      "Thrown (ascii ''invalid block type'')"] 1
  have a: "decodeDrawio example_platform (ascii ''!////'')
       = Inl (Thrown (ascii ''Failed to decompress Draw.io file''))"
    by blast
  from 3 have d3: "decodeURIComponent example_platform (js_to_string (Some example_encoded))
      = Inr example_markup"
    by (simp add: js_to_string_def)
  from 5 have d5: "decodeURIComponent example_platform (js_to_string (Some (ascii ''%'')))
      = Inl (Thrown (ascii ''URI malformed''))"
    by (simp add: js_to_string_def)
  from decodeDrawio_single_failure [of example_platform example_payload _ _
      "Some example_encoded" example_markup] 2 d3
  have b: "decodeDrawio example_platform example_payload = Inr example_markup"
    by blast
  from decodeDrawio_single_failure [of example_platform "ascii ''UwUA''" _
      "Thrown (ascii ''URI malformed'')" "Some (ascii ''%'')"] 4 d5
  have c: "decodeDrawio example_platform (ascii ''UwUA'')
       = Inl (Thrown (ascii ''Failed to decompress Draw.io file''))"
    by blast
  from 1 2 3 4 5 a b c show ?thesis by blast
qed

lemma base64_char_range: "base64_char c \<or> c = 0x3D \<Longrightarrow> 0x2B \<le> unat c \<and> unat c \<le> 0x7A"
  unfolding base64_char_def word_le_nat_alt by (elim disjE conjE) simp_all

lemma whitespace_range: "is_js_whitespace c \<Longrightarrow> unat c \<le> 0x20 \<or> 0xA0 \<le> unat c"
  unfolding is_js_whitespace_def word_le_nat_alt by (elim disjE conjE insertE emptyE) simp_all

lemma base64_char_not_whitespace: "base64_char c \<or> c = 0x3D \<Longrightarrow> \<not> is_js_whitespace c"
  using base64_char_range[of c] whitespace_range[of c] by fastforce

lemma dropWhile_none: "\<forall>c\<in>set s. \<not> P c \<Longrightarrow> dropWhile P s = s"
  by (cases s) auto

lemma trim_no_whitespace:
  assumes "\<forall>c\<in>set s. \<not> is_js_whitespace c"
  shows "trim s = s"
proof -
  from assms have "dropWhile is_js_whitespace s = s" by (rule dropWhile_none)
  moreover from assms have "dropWhile is_js_whitespace (rev s) = rev s"
    by (intro dropWhile_none) simp
  ultimately show ?thesis by (simp add: trim_def)
qed

text \<open>
  Claim C9. For a markup string that the percent-encoder accepts, the compression
  procedure gives the base64 text of the deflated encoding, and \<open>decodeDrawio\<close> maps it
  back to the markup. The hypotheses are the round-trip laws of the three library
  pairs at the values in question, and that the base64 text consists of base64
  characters (so that \<open>trim\<close> leaves it as it is).
\<close>

theorem decompress_roundtrip:
  assumes enc: "encodeURIComponent markup = Inr encoded"
    and uri: "decodeURIComponent p encoded = Inr markup"
    and deflate: "inflateRaw p (deflateRaw encoded) = Inr (Some encoded)"
    and base64: "bufferFromBase64 p (toBase64 (deflateRaw encoded)) = deflateRaw encoded"
    and alphabet: "list_all (\<lambda>c. base64_char c \<or> c = 0x3D) (toBase64 (deflateRaw encoded))"
  shows "compressDrawio encodeURIComponent deflateRaw toBase64 markup
           = Inr (toBase64 (deflateRaw encoded))
         \<and> decodeDrawio p (toBase64 (deflateRaw encoded)) = Inr markup"
proof
  show "compressDrawio encodeURIComponent deflateRaw toBase64 markup
           = Inr (toBase64 (deflateRaw encoded))"
    using enc by (simp add: compressDrawio_def)
  from alphabet have "\<forall>c\<in>set (toBase64 (deflateRaw encoded)). \<not> is_js_whitespace c"
    using base64_char_not_whitespace by (auto simp: list_all_iff)
  then have "trim (toBase64 (deflateRaw encoded)) = toBase64 (deflateRaw encoded)"
    by (rule trim_no_whitespace)
  with base64 deflate have "inflateRaw p (bufferFromBase64 p (trim (toBase64 (deflateRaw encoded))))
      = Inr (Some encoded)"
    by simp
  moreover from uri have "decodeURIComponent p (js_to_string (Some encoded)) = Inr markup"
    by (simp add: js_to_string_def)
  ultimately show "decodeDrawio p (toBase64 (deflateRaw encoded)) = Inr markup"
    by (rule decodeDrawio_ok)
qed

theorem decompress_roundtrip_witness:
  "compressDrawio example_encodeURIComponent example_deflateRaw example_toBase64 example_markup
     = Inr example_payload
   \<and> decodeDrawio example_platform example_payload = Inr example_markup"
proof -
  have enc: "example_encodeURIComponent example_markup = Inr example_encoded"
    by code_simp
  have uri: "decodeURIComponent example_platform example_encoded = Inr example_markup"
    by code_simp
  have d: "example_deflateRaw example_encoded = example_deflated"
    by code_simp
  have b: "example_toBase64 example_deflated = example_payload"
    by code_simp
  have deflate: "inflateRaw example_platform (example_deflateRaw example_encoded)
      = Inr (Some example_encoded)"
    by code_simp
  have base64: "bufferFromBase64 example_platform (example_toBase64 (example_deflateRaw example_encoded))
      = example_deflateRaw example_encoded"
    by code_simp
  have alphabet: "list_all (\<lambda>c. base64_char c \<or> c = 0x3D)
      (example_toBase64 (example_deflateRaw example_encoded))"
    by code_simp
  from decompress_roundtrip [of example_encodeURIComponent example_markup example_encoded
      example_platform example_deflateRaw example_toBase64, OF enc uri deflate base64 alphabet]
  show ?thesis by (simp add: d b)
qed

theorem escaped_payload_witness:
  "js_includes (ascii ''a<b & c='' @ dq @ ascii ''x'' @ dq) (ascii ''<'')
   \<and> js_includes (ascii ''a<b & c='' @ dq @ ascii ''x'' @ dq) (ascii ''&'')
   \<and> js_includes (ascii ''a<b & c='' @ dq @ ascii ''x'' @ dq) dq
   \<and> escapeXml (JSON_stringify (JArray [JObject [(''text'',
          JString (ascii ''a<b & c='' @ dq @ ascii ''x'' @ dq))]]))
       = ascii ''[{&quot;text&quot;:&quot;a&lt;b &amp; c='' @ [0x5C] @ ascii ''&quot;x'' @ [0x5C]
           @ ascii ''&quot;&quot;}]''
   \<and> escaped_ok (escapeXml (JSON_stringify (JArray [JObject [(''text'',
          JString (ascii ''a<b & c='' @ dq @ ascii ''x'' @ dq))]])))
   \<and> 0x3C \<notin> set (escapeXml (JSON_stringify (JArray [JObject [(''text'',
          JString (ascii ''a<b & c='' @ dq @ ascii ''x'' @ dq))]])))
   \<and> 0x22 \<notin> set (escapeXml (JSON_stringify (JArray [JObject [(''text'',
          JString (ascii ''a<b & c='' @ dq @ ascii ''x'' @ dq))]])))"
proof -
  have l: "js_includes (ascii ''a<b & c='' @ dq @ ascii ''x'' @ dq) (ascii ''<'')
   \<and> js_includes (ascii ''a<b & c='' @ dq @ ascii ''x'' @ dq) (ascii ''&'')
   \<and> js_includes (ascii ''a<b & c='' @ dq @ ascii ''x'' @ dq) dq"
    by code_simp
  have e: "escapeXml (JSON_stringify (JArray [JObject [(''text'',
          JString (ascii ''a<b & c='' @ dq @ ascii ''x'' @ dq))]]))
       = ascii ''[{&quot;text&quot;:&quot;a&lt;b &amp; c='' @ [0x5C] @ ascii ''&quot;x'' @ [0x5C]
           @ ascii ''&quot;&quot;}]''"
    by code_simp
  from escaped_payload [of "[JObject [(''text'',
          JString (ascii ''a<b & c='' @ dq @ ascii ''x'' @ dq))]]" toLowerCase_ascii "[]" "[]"]
  have "escaped_ok (escapeXml (JSON_stringify (JArray [JObject [(''text'',
          JString (ascii ''a<b & c='' @ dq @ ascii ''x'' @ dq))]])))
   \<and> 0x3C \<notin> set (escapeXml (JSON_stringify (JArray [JObject [(''text'',
          JString (ascii ''a<b & c='' @ dq @ ascii ''x'' @ dq))]])))
   \<and> 0x22 \<notin> set (escapeXml (JSON_stringify (JArray [JObject [(''text'',
          JString (ascii ''a<b & c='' @ dq @ ascii ''x'' @ dq))]])))"
    by blast
  with l e show ?thesis by blast
qed

section \<open>Classification\<close>

lemma detectNodeType_classify_spec: "detectNodeType l node = classify_spec l node"
  by (simp add: detectNodeType_def classify_spec_def label_rules_def style_rules_def
      has_keyword_def Let_def)

text \<open>
  Claim C4. The classifier reads the label and the style only through \<open>toLowerCase\<close>
  (it is case-insensitive), and it is the first-match evaluation of the ordered rules:
  transfer, unknown, error, end/close, start and input keywords in the label, then the
  ellipse/circle and the rhombus/diamond style, then Message. A label with an error
  keyword is never classified by its shape: whatever the style, also rhombus, the
  result is not Decision, and it is Error unless one of the two rules that precede the
  error rule (transfer, unknown) matches the label.
\<close>

theorem detectNodeType_precedence:
  "detectNodeType l node = classify_spec l node
   \<and> (l (n_value node) = l (n_value node') \<and> l (n_style node) = l (n_style node')
        \<longrightarrow> detectNodeType l node = detectNodeType l node')
   \<and> (has_keyword (l (n_value node)) [kw_error_he, ascii ''error'']
        \<longrightarrow> detectNodeType l node \<noteq> Decision
          \<and> (\<not> has_keyword (l (n_value node)) [kw_transfer_he, ascii ''transfer'', ascii ''agent'']
               \<and> \<not> has_keyword (l (n_value node)) [kw_unknown_he, ascii ''unknown'']
               \<longrightarrow> detectNodeType l node = Error))"
proof (intro conjI)
  show "detectNodeType l node = classify_spec l node"
    by (rule detectNodeType_classify_spec)
next
  show "l (n_value node) = l (n_value node') \<and> l (n_style node) = l (n_style node')
        \<longrightarrow> detectNodeType l node = detectNodeType l node'"
    by (simp add: detectNodeType_def)
next
  show "has_keyword (l (n_value node)) [kw_error_he, ascii ''error'']
        \<longrightarrow> detectNodeType l node \<noteq> Decision
          \<and> (\<not> has_keyword (l (n_value node)) [kw_transfer_he, ascii ''transfer'', ascii ''agent'']
               \<and> \<not> has_keyword (l (n_value node)) [kw_unknown_he, ascii ''unknown'']
               \<longrightarrow> detectNodeType l node = Error)"
    by (simp add: detectNodeType_def has_keyword_def Let_def)
qed

theorem detectNodeType_precedence_witness:
  "has_keyword (toLowerCase_ascii (ascii ''Error'')) [kw_error_he, ascii ''error'']
   \<and> detectNodeType toLowerCase_ascii
        \<lparr>n_id = Some (ascii ''a''), n_value = ascii ''Error'',
         n_style = ascii ''rhombus;whiteSpace=wrap;html=1;'', n_parent = Some (ascii ''1''),
         n_geometry = []\<rparr> = Error
   \<and> detectNodeType toLowerCase_ascii
        \<lparr>n_id = Some (ascii ''b''), n_value = ascii ''ERROR'',
         n_style = ascii ''RHOMBUS;whiteSpace=wrap;html=1;'', n_parent = Some (ascii ''1''),
         n_geometry = []\<rparr> = Error"
proof -
  let ?a = "\<lparr>n_id = Some (ascii ''a''), n_value = ascii ''Error'',
         n_style = ascii ''rhombus;whiteSpace=wrap;html=1;'', n_parent = Some (ascii ''1''),
         n_geometry = []\<rparr>"
  let ?b = "\<lparr>n_id = Some (ascii ''b''), n_value = ascii ''ERROR'',
         n_style = ascii ''RHOMBUS;whiteSpace=wrap;html=1;'', n_parent = Some (ascii ''1''),
         n_geometry = []\<rparr>"
  have kw: "has_keyword (toLowerCase_ascii (n_value ?a)) [kw_error_he, ascii ''error'']"
    by code_simp
  have no_transfer: "\<not> has_keyword (toLowerCase_ascii (n_value ?a))
      [kw_transfer_he, ascii ''transfer'', ascii ''agent'']"
    by code_simp
  have no_unknown: "\<not> has_keyword (toLowerCase_ascii (n_value ?a)) [kw_unknown_he, ascii ''unknown'']"
    by code_simp
  have same: "toLowerCase_ascii (n_value ?a) = toLowerCase_ascii (n_value ?b)
      \<and> toLowerCase_ascii (n_style ?a) = toLowerCase_ascii (n_style ?b)"
    by code_simp
  from detectNodeType_precedence [of toLowerCase_ascii ?a ?b] kw no_transfer no_unknown same
  have "detectNodeType toLowerCase_ascii ?a = Error"
    and "detectNodeType toLowerCase_ascii ?a = detectNodeType toLowerCase_ascii ?b"
    by blast+
  with kw show ?thesis by simp
qed

end
